theory Spec2Isabelle
  imports Main "HOL-Library.Sublist"
begin

section \<open>Text primitives of the host language\<close>

text \<open>
  Text is a list of 8-bit characters: the UTF-8 bytes of the JavaScript string, which is
  what the converter reads from the uploaded files and writes into the archive. The
  operations below act on the ASCII range (case mapping, white space, character classes),
  which is where every pattern and every needle of \<^verbatim>\<open>app.js\<close> lives; bytes above
  127 pass through unchanged. File sizes and counts are natural numbers.
\<close>

definition upperChars :: string where
  "upperChars = ''ABCDEFGHIJKLMNOPQRSTUVWXYZ''"

definition lowerChars :: string where
  "lowerChars = ''abcdefghijklmnopqrstuvwxyz''"

definition digitChars :: string where
  "digitChars = ''0123456789''"

definition lowerChar :: "char \<Rightarrow> char" where
  "lowerChar c = (case map_of (zip upperChars lowerChars) c of Some d \<Rightarrow> d | None \<Rightarrow> c)"

definition toLowerCase :: "string \<Rightarrow> string" where
  "toLowerCase s = map lowerChar s"

text \<open>\<^verbatim>\<open>s.includes(needle)\<close> and \<^verbatim>\<open>s.endsWith(t)\<close>.\<close>

definition includes_str :: "string \<Rightarrow> string \<Rightarrow> bool" where
  "includes_str s needle = sublist needle s"

definition endsWith :: "string \<Rightarrow> string \<Rightarrow> bool" where
  "endsWith s t = suffix t s"

text \<open>\<^verbatim>\<open>s.split(sep)\<close> for a one-character separator, and \<^verbatim>\<open>parts.join(sep)\<close>.\<close>

fun split_on :: "char \<Rightarrow> string \<Rightarrow> string list" where
  "split_on sep [] = [Nil]"
| "split_on sep (c # cs) =
     (if c = sep then [] # split_on sep cs
      else (case split_on sep cs of [] \<Rightarrow> [c] # [] | p # ps \<Rightarrow> (c # p) # ps))"

fun join_with :: "string \<Rightarrow> string list \<Rightarrow> string" where
  "join_with sep [] = []"
| "join_with sep [p] = p"
| "join_with sep (p # q # ps) = p @ sep @ join_with sep (q # ps)"

text \<open>The decimal text of a number, as a template literal writes it.\<close>

fun showNat :: "nat \<Rightarrow> string" where
  "showNat n = (if n < 10 then [digitChars ! n] else showNat (n div 10) @ [digitChars ! (n mod 10)])"

declare showNat.simps [simp del]

text \<open>White space of \<^verbatim>\<open>trim()\<close> and of the class \<^verbatim>\<open>\s\<close>: tab, line feed, vertical tab,
  form feed, carriage return and space.\<close>

definition isSpace :: "char \<Rightarrow> bool" where
  "isSpace c = (c \<in> set [CHR 0x09, CHR 0x0A, CHR 0x0B, CHR 0x0C, CHR 0x0D, CHR 0x20])"

definition trim :: "string \<Rightarrow> string" where
  "trim s = rev (dropWhile isSpace (rev (dropWhile isSpace s)))"

text \<open>\<^verbatim>\<open>.replace(/\s+/g, '-')\<close> and \<^verbatim>\<open>.replace(/-+/g, '-')\<close>: every maximal run of
  characters of the class becomes one hyphen. A character of the class that is followed by
  another one is dropped; the last one of the run is written as the hyphen.\<close>

fun replaceRuns :: "(char \<Rightarrow> bool) \<Rightarrow> string \<Rightarrow> string" where
  "replaceRuns p [] = []"
| "replaceRuns p [c] = (if p c then [CHR ''-''] else [c])"
| "replaceRuns p (c # d # cs) =
     (if p c then (if p d then replaceRuns p (d # cs) else CHR ''-'' # replaceRuns p (d # cs))
      else c # replaceRuns p (d # cs))"

text \<open>\<^verbatim>\<open>.replace(/[^a-z0-9-]/g, '')\<close>.\<close>

definition nameChars :: string where
  "nameChars = lowerChars @ digitChars @ ''-''"

definition removeSpecial :: "string \<Rightarrow> string" where
  "removeSpecial s = filter (\<lambda>c. c \<in> set nameChars) s"

text \<open>\<^verbatim>\<open>.replace(/^-|-$/g, '')\<close>: one hyphen at the start is removed, then one hyphen at
  the end of what is left.\<close>

definition stripEdgeHyphens :: "string \<Rightarrow> string" where
  "stripEdgeHyphens s =
     (let t = (case s of [] \<Rightarrow> [] | c # cs \<Rightarrow> if c = CHR ''-'' then cs else s)
      in if t \<noteq> [] \<and> last t = CHR ''-'' then butlast t else t)"

subsection \<open>Replacing the first match of a case-insensitive literal pattern\<close>

text \<open>
  \<^verbatim>\<open>html.replace(/<\/head>/i, replacement)\<close>: the pattern is a literal in lower case, the
  flag \<^verbatim>\<open>i\<close> lets either case of an ASCII letter match, and without the flag
  \<^verbatim>\<open>g\<close> only the first match is replaced. \<open>findCI\<close> returns the text before the first
  match, the matched text and the text after it.
\<close>

definition matchesAt :: "string \<Rightarrow> string \<Rightarrow> bool" where
  "matchesAt pat s = prefix pat (toLowerCase s)"

fun findCI :: "string \<Rightarrow> string \<Rightarrow> (string \<times> string \<times> string) option" where
  "findCI pat [] = (if pat = [] then Some ([], [], []) else None)"
| "findCI pat (c # cs) =
     (if matchesAt pat (c # cs)
      then Some ([], take (length pat) (c # cs), drop (length pat) (c # cs))
      else (case findCI pat cs of None \<Rightarrow> None | Some (a, m, b) \<Rightarrow> Some (c # a, m, b)))"

text \<open>
  A replacement given as a string is a template: \<^verbatim>\<open>$$\<close> writes a dollar sign,
  \<^verbatim>\<open>$&\<close> the matched text, \<^verbatim>\<open>$`\<close> the text before the match and \<^verbatim>\<open>$'\<close> the
  text after it. The patterns here have no capture group, so \<^verbatim>\<open>$1\<close> and the like
  stand for themselves.
\<close>

fun getSubstitution :: "string \<Rightarrow> string \<Rightarrow> string \<Rightarrow> string \<Rightarrow> string" where
  "getSubstitution m a b [] = []"
| "getSubstitution m a b [c] = [c]"
| "getSubstitution m a b (c # d # r) =
     (if c = CHR ''$'' \<and> d = CHR ''$'' then CHR ''$'' # getSubstitution m a b r
      else if c = CHR ''$'' \<and> d = CHR ''&'' then m @ getSubstitution m a b r
      else if c = CHR ''$'' \<and> d = CHR 0x60 then a @ getSubstitution m a b r
      else if c = CHR ''$'' \<and> d = CHR 0x27 then b @ getSubstitution m a b r
      else c # getSubstitution m a b (d # r))"

definition replaceFirstCI :: "string \<Rightarrow> string \<Rightarrow> string \<Rightarrow> string" where
  "replaceFirstCI pat replacement s =
     (case findCI pat s of
        None \<Rightarrow> s
      | Some (a, m, b) \<Rightarrow> a @ getSubstitution m a b replacement @ b)"

subsection \<open>JSON text\<close>

text \<open>
  \<^verbatim>\<open>JSON.stringify(value, null, 2)\<close> on the values the converter serialises: strings,
  arrays and objects with string keys. A member list keeps the insertion order of the
  object's keys.
\<close>

datatype json = JStr string | JArr "json list" | JObj "(string \<times> json) list"

definition hexDigits :: string where
  "hexDigits = ''0123456789abcdef''"

definition escapeJSON :: "char \<Rightarrow> string" where
  "escapeJSON c =
     (if c = CHR 0x22 then [CHR 0x5C, CHR 0x22]
      else if c = CHR 0x5C then [CHR 0x5C, CHR 0x5C]
      else if c = CHR 0x08 then [CHR 0x5C, CHR ''b'']
      else if c = CHR 0x0C then [CHR 0x5C, CHR ''f'']
      else if c = CHR 0x0A then [CHR 0x5C, CHR ''n'']
      else if c = CHR 0x0D then [CHR 0x5C, CHR ''r'']
      else if c = CHR 0x09 then [CHR 0x5C, CHR ''t'']
      else if (of_char c :: nat) < 32
        then [CHR 0x5C, CHR ''u'', CHR ''0'', CHR ''0'',
              hexDigits ! (of_char c div 16), hexDigits ! (of_char c mod 16)]
      else [c])"

definition quoteJSON :: "string \<Rightarrow> string" where
  "quoteJSON s = [CHR 0x22] @ concat (map escapeJSON s) @ [CHR 0x22]"

definition spaces :: "nat \<Rightarrow> string" where
  "spaces n = replicate n CHR '' ''"

fun stringify :: "nat \<Rightarrow> json \<Rightarrow> string" where
  "stringify ind (JStr s) = quoteJSON s"
| "stringify ind (JArr xs) =
     (if xs = [] then ''[]''
      else ''['' @ [CHR 0x0A]
        @ join_with ('','' @ [CHR 0x0A]) (map (\<lambda>x. spaces (ind + 2) @ stringify (ind + 2) x) xs)
        @ [CHR 0x0A] @ spaces ind @ '']'')"
| "stringify ind (JObj kvs) =
     (if kvs = [] then ''{}''
      else ''{'' @ [CHR 0x0A]
        @ join_with ('','' @ [CHR 0x0A])
            (map (\<lambda>kv. spaces (ind + 2) @ quoteJSON (fst kv) @ '': '' @ stringify (ind + 2) (snd kv)) kvs)
        @ [CHR 0x0A] @ spaces ind @ ''}'')"


section \<open>The data of the converter\<close>

text \<open>A file of the chosen folder as the browser hands it over: its path below the folder
  (\<^verbatim>\<open>webkitRelativePath\<close>, starting with the folder's own name), its name, its declared
  type (empty when the browser knows none), its size and its bytes.\<close>

record upload =
  webkitRelativePath :: string
  uploadName :: string
  uploadType :: string
  uploadSize :: nat
  uploadBytes :: string

text \<open>The entry of \<^verbatim>\<open>this.files.allFiles\<close> (\<open>path\<close>, \<open>blob\<close>, \<open>type\<close>, \<open>size\<close>,
  \<open>name\<close>) and the quick reference to an important file (\<open>path\<close>, \<open>content\<close>,
  \<open>blob\<close>).\<close>

record fileInfo =
  path :: string
  blob :: upload
  mimeType :: string
  sizeBytes :: nat
  fileName :: string

record keyFile =
  keyPath :: string
  content :: string
  keyBlob :: upload

text \<open>\<^verbatim>\<open>this.files\<close>; \<open>None\<close> is \<^verbatim>\<open>null\<close>. The field \<open>uploadedFolder\<close> is
  \<^verbatim>\<open>this.files.folderName\<close>.\<close>

record files =
  uploadedFolder :: "string option"
  sanitizedName :: "string option"
  allFiles :: "fileInfo list"
  totalSize :: nat
  index :: "keyFile option"
  css :: "keyFile option"
  js :: "keyFile option"
  icon :: "string option"

definition emptyFiles :: files where
  "emptyFiles = \<lparr>uploadedFolder = None, sanitizedName = None, allFiles = [], totalSize = 0,
     index = None, css = None, js = None, icon = None\<rparr>"

text \<open>\<^verbatim>\<open>this.config\<close>, as \<^verbatim>\<open>generatePWA\<close> collects it from the form.\<close>

record config =
  name :: string
  shortName :: string
  appId :: string
  folderName :: string
  description :: string
  themeColor :: string
  backgroundColor :: string
  startUrl :: string
  scope :: string
  display :: string
  orientation :: string
  cacheStrategy :: string
  enableOffline :: bool
  enableNotifications :: bool

text \<open>The fields of the form that the upload fills in, with the marks that the user has
  edited the start URL or the scope by hand. The fields filled from the document's
  metadata (title, colour, description) are not part of this model.\<close>

record form =
  folderNameInput :: string
  appIdInput :: string
  startUrlInput :: string
  scopeInput :: string
  startUrlUserModified :: bool
  scopeUserModified :: bool

section \<open>Folder names and the names derived from them\<close>

definition sanitizeFolderName :: "string \<Rightarrow> string" where
  "sanitizeFolderName nm =
     stripEdgeHyphens
       (replaceRuns (\<lambda>c. c = CHR ''-'')
         (removeSpecial
           (replaceRuns isSpace
             (trim (toLowerCase nm)))))"

definition updateUrlFields :: "string \<Rightarrow> form \<Rightarrow> form" where
  "updateUrlFields folder fm =
     (if folder = [] then fm
      else
        (let fm1 = (if \<not> startUrlUserModified fm
                    then fm\<lparr>startUrlInput := ''/'' @ folder @ ''/''\<rparr> else fm)
         in (if \<not> scopeUserModified fm1
             then fm1\<lparr>scopeInput := ''/'' @ folder @ ''/''\<rparr> else fm1)))"

text \<open>\<^verbatim>\<open>autoFillConfiguration\<close>, on the fields of \<open>form\<close>. It runs after a successful
  validation, where the sanitized name is set.\<close>

definition autoFillConfiguration :: "files \<Rightarrow> form \<Rightarrow> form" where
  "autoFillConfiguration st fm =
     (case sanitizedName st of
        None \<Rightarrow> fm
      | Some s \<Rightarrow> updateUrlFields s (fm\<lparr>folderNameInput := s, appIdInput := s @ ''-id''\<rparr>))"

section \<open>Folder ingestion\<close>

text \<open>\<^verbatim>\<open>file.webkitRelativePath || file.name\<close>.\<close>

definition fullPath :: "upload \<Rightarrow> string" where
  "fullPath f = (if webkitRelativePath f \<noteq> [] then webkitRelativePath f else uploadName f)"

definition getRelativePath :: "upload \<Rightarrow> string" where
  "getRelativePath f = join_with ''/'' (drop 1 (split_on CHR ''/'' (fullPath f)))"

text \<open>The table of \<^verbatim>\<open>guessFileType\<close>. Only the table's own keys are modelled.\<close>

definition mimeTypes :: "(string \<times> string) list" where
  "mimeTypes =
     [(''html'', ''text/html''), (''css'', ''text/css''), (''js'', ''application/javascript''),
      (''json'', ''application/json''), (''png'', ''image/png''), (''jpg'', ''image/jpeg''),
      (''jpeg'', ''image/jpeg''), (''gif'', ''image/gif''), (''svg'', ''image/svg+xml''),
      (''webp'', ''image/webp''), (''mp3'', ''audio/mpeg''), (''wav'', ''audio/wav''),
      (''ogg'', ''audio/ogg''), (''mp4'', ''video/mp4''), (''webm'', ''video/webm''),
      (''woff'', ''font/woff''), (''woff2'', ''font/woff2''), (''ttf'', ''font/ttf''),
      (''txt'', ''text/plain''), (''xml'', ''application/xml'')]"

definition guessFileType :: "string \<Rightarrow> string" where
  "guessFileType filename =
     (case map_of mimeTypes (toLowerCase (last (split_on CHR ''.'' filename))) of
        Some t \<Rightarrow> t
      | None \<Rightarrow> ''application/octet-stream'')"

text \<open>One round of the loop of \<^verbatim>\<open>processAllFiles\<close>: the file is recorded, and kept as
  the root document, the stylesheet or the script by the same chain of tests.\<close>

definition processFile :: "files \<Rightarrow> upload \<Rightarrow> files" where
  "processFile st f =
     (let relativePath = getRelativePath f;
          fileInfo = \<lparr>path = relativePath, blob = f,
            mimeType = (if uploadType f \<noteq> [] then uploadType f else guessFileType relativePath),
            sizeBytes = uploadSize f, fileName = uploadName f\<rparr>;
          st1 = st\<lparr>allFiles := allFiles st @ [fileInfo]\<rparr>;
          key = \<lparr>keyPath = relativePath, content = uploadBytes f, keyBlob = f\<rparr>
      in if relativePath = ''index.html'' then st1\<lparr>index := Some key\<rparr>
         else if endsWith relativePath ''.css'' \<and> css st1 = None then st1\<lparr>css := Some key\<rparr>
         else if endsWith relativePath ''.js'' \<and> js st1 = None then
           (if \<not> includes_str relativePath ''node_modules'' \<and> \<not> includes_str relativePath ''dist''
            then st1\<lparr>js := Some key\<rparr> else st1)
         else st1)"

definition processAllFiles :: "files \<Rightarrow> upload list \<Rightarrow> files" where
  "processAllFiles st fs = foldl processFile (st\<lparr>allFiles := []\<rparr>) fs"

datatype uploadError = FolderTooLarge nat | IndexNotFound | InvalidIndex

definition validateHTML :: "string \<Rightarrow> bool" where
  "validateHTML c =
     (let lower = toLowerCase c
      in includes_str lower ''<!doctype'' \<or> includes_str lower ''<html'')"

definition validateFolderStructure :: "files \<Rightarrow> uploadError option" where
  "validateFolderStructure st =
     (case index st of
        None \<Rightarrow> Some IndexNotFound
      | Some i \<Rightarrow> if \<not> validateHTML (content i) then Some InvalidIndex else None)"

definition maxSize :: nat where
  "maxSize = 100 * 1024 * 1024"

definition warnSize :: nat where
  "warnSize = 50 * 1024 * 1024"

text \<open>What the page shows during an upload, in the order it happens: the status line
  (processing, the large-folder warning, success or error) and the pause of
  \<^verbatim>\<open>delay(ms)\<close>.\<close>

datatype notice =
  Processing | LargeFolderWarning nat | Pause nat | Loaded string nat | Failed uploadError

record app =
  files :: files
  form :: form
  notices :: "notice list"
  nextEnabled :: bool

text \<open>The body of the \<^verbatim>\<open>try\<close> block of \<^verbatim>\<open>handleFolderUpload\<close>, for a list that starts
  with the file \<open>f\<close>. \<open>Inl\<close> is a throw, with the state reached at the throw.\<close>

definition uploadBody :: "app \<Rightarrow> upload \<Rightarrow> upload list \<Rightarrow> uploadError \<times> app + app" where
  "uploadBody a f fs =
     (let folder = (case split_on CHR ''/'' (fullPath f) of [] \<Rightarrow> [] | p # ps \<Rightarrow> p);
          total = foldl (\<lambda>sum g. sum + uploadSize g) 0 (f # fs);
          a1 = a\<lparr>files := (files a)\<lparr>uploadedFolder := Some folder,
                  sanitizedName := Some (sanitizeFolderName folder), totalSize := total\<rparr>\<rparr>
      in if total > maxSize then Inl (FolderTooLarge total, a1)
         else
           (let a2 = (if total > warnSize
                      then a1\<lparr>notices := notices a1 @ [LargeFolderWarning total, Pause 1000]\<rparr>
                      else a1);
                a3 = a2\<lparr>files := processAllFiles (files a2) (f # fs)\<rparr>
            in case validateFolderStructure (files a3) of
                 Some e \<Rightarrow> Inl (e, a3)
               | None \<Rightarrow>
                   Inr (a3\<lparr>form := autoFillConfiguration (files a3) (form a3),
                           notices := notices a3 @ [Loaded folder (length (f # fs))],
                           nextEnabled := True\<rparr>)))"

text \<open>\<^verbatim>\<open>handleFolderUpload\<close>: nothing happens on an empty list; a throw is caught, the
  files are reset and the error is shown.\<close>

fun handleFolderUpload :: "app \<Rightarrow> upload list \<Rightarrow> app" where
  "handleFolderUpload a [] = a"
| "handleFolderUpload a (f # fs) =
     (case uploadBody (a\<lparr>notices := notices a @ [Processing]\<rparr>) f fs of
        Inr a' \<Rightarrow> a'
      | Inl (e, a') \<Rightarrow>
          a'\<lparr>files := emptyFiles, notices := notices a' @ [Failed e], nextEnabled := False\<rparr>)"

section \<open>The manifest\<close>

definition iconSizes :: "nat list" where
  "iconSizes = [72, 96, 128, 144, 152, 192, 384, 512]"

text \<open>The entry that \<^verbatim>\<open>generateManifest\<close> pushes for one size.\<close>

definition iconEntry :: "nat \<Rightarrow> json" where
  "iconEntry sz =
     JObj [(''src'', JStr (''icons/icon-'' @ showNat sz @ ''x'' @ showNat sz @ ''.png'')),
           (''sizes'', JStr (showNat sz @ ''x'' @ showNat sz)),
           (''type'', JStr ''image/png''),
           (''purpose'', JStr (if sz \<ge> 192 then ''any maskable'' else ''any''))]"

definition manifestObject :: "config \<Rightarrow> json" where
  "manifestObject cfg =
     JObj [(''id'', JStr (appId cfg)),
           (''name'', JStr (name cfg)),
           (''short_name'', JStr (shortName cfg)),
           (''description'', JStr (description cfg)),
           (''start_url'', JStr (startUrl cfg)),
           (''scope'', JStr (scope cfg)),
           (''display'', JStr (display cfg)),
           (''orientation'', JStr (orientation cfg)),
           (''theme_color'', JStr (themeColor cfg)),
           (''background_color'', JStr (backgroundColor cfg)),
           (''icons'', JArr (map iconEntry iconSizes)),
           (''categories'', JArr [JStr ''utilities'', JStr ''productivity''])]"

definition generateManifest :: "config \<Rightarrow> string" where
  "generateManifest cfg = stringify 0 (manifestObject cfg)"

section \<open>The service worker\<close>

definition cacheName :: "config \<Rightarrow> string" where
  "cacheName cfg = folderName cfg @ ''-v1''"

text \<open>The list \<^verbatim>\<open>urlsToCache\<close>: the three fixed entries, one push for every user file,
  one more push when the offline page is enabled.\<close>

definition urlsToCache :: "config \<Rightarrow> files \<Rightarrow> string list" where
  "urlsToCache cfg st =
     (let urls0 = [startUrl cfg, startUrl cfg @ ''index.html'', startUrl cfg @ ''manifest.json''];
          urls1 = foldl (\<lambda>urls file. urls @ [startUrl cfg @ path file]) urls0 (allFiles st)
      in if enableOffline cfg then urls1 @ [startUrl cfg @ ''offline.html''] else urls1)"

definition cacheFirstLinesOffline :: "string list" where
  \<open>cacheFirstLinesOffline =
     [''\<newline>'',
      ''                    if (isNavigationRequest(event.request)) {\<newline>'',
      ''                        return caches.match(OFFLINE_URL);\<newline>'',
      ''                    }'']\<close>

definition cacheFirstTextOffline :: string where
  "cacheFirstTextOffline = concat cacheFirstLinesOffline"

definition cacheFirstLines1 :: "string list" where
  \<open>cacheFirstLines1 =
     [''    // Cache First Strategy - Serves cached content immediately\<newline>'',
      ''    if (event.request.method !== 'GET') {\<newline>'',
      ''        return;\<newline>'',
      ''    }\<newline>'',
      ''\<newline>'',
      ''    event.respondWith(\<newline>'',
      ''        caches.match(event.request)\<newline>'',
      ''            .then(cachedResponse => {\<newline>'',
      ''                if (cachedResponse) {\<newline>'',
      ''                    return cachedResponse;\<newline>'',
      ''                }\<newline>'',
      ''\<newline>'',
      ''                return fetch(event.request).then(response => {\<newline>'',
      ''                    if (!response || response.status !== 200 || response.type !== 'basic') {\<newline>'',
      ''                        return response;\<newline>'',
      ''                    }\<newline>'',
      ''\<newline>'',
      ''                    const responseToCache = response.clone();\<newline>'',
      ''                    caches.open(CACHE_NAME).then(cache => {\<newline>'',
      ''                        cache.put(event.request, responseToCache);\<newline>'',
      ''                    });\<newline>'',
      ''\<newline>'',
      ''                    return response;\<newline>'',
      ''                }).catch(error => {\<newline>'',
      ''                    '']\<close>

definition cacheFirstText1 :: string where
  "cacheFirstText1 = concat cacheFirstLines1"

definition cacheFirstLines2 :: "string list" where
  \<open>cacheFirstLines2 =
     [''\<newline>'',
      ''                    throw error;\<newline>'',
      ''                });\<newline>'',
      ''            })\<newline>'',
      ''    );'']\<close>

definition cacheFirstText2 :: string where
  "cacheFirstText2 = concat cacheFirstLines2"

text \<open>The \<^verbatim>\<open>cache-first\<close> body of the fetch listener; the offline fallback is spliced in when enabled.\<close>

definition generateCacheFirstStrategy :: "config \<Rightarrow> string" where
  "generateCacheFirstStrategy cfg =
     concat
      [cacheFirstText1,
       (if enableOffline cfg then cacheFirstTextOffline else []),
       cacheFirstText2]"

definition networkFirstLinesOffline :: "string list" where
  \<open>networkFirstLinesOffline =
     [''\<newline>'',
      ''                    if (isNavigationRequest(event.request)) {\<newline>'',
      ''                        return caches.match(OFFLINE_URL);\<newline>'',
      ''                    }'']\<close>

definition networkFirstTextOffline :: string where
  "networkFirstTextOffline = concat networkFirstLinesOffline"

definition networkFirstLines1 :: "string list" where
  \<open>networkFirstLines1 =
     [''    // Network First Strategy - Always tries network first\<newline>'',
      ''    if (event.request.method !== 'GET') {\<newline>'',
      ''        return;\<newline>'',
      ''    }\<newline>'',
      ''\<newline>'',
      ''    event.respondWith(\<newline>'',
      ''        fetch(event.request)\<newline>'',
      ''            .then(response => {\<newline>'',
      ''                if (response.status === 200) {\<newline>'',
      ''                    const responseToCache = response.clone();\<newline>'',
      ''                    caches.open(CACHE_NAME).then(cache => {\<newline>'',
      ''                        cache.put(event.request, responseToCache);\<newline>'',
      ''                    });\<newline>'',
      ''                }\<newline>'',
      ''                return response;\<newline>'',
      ''            })\<newline>'',
      ''            .catch(error => {\<newline>'',
      ''                return caches.match(event.request).then(cachedResponse => {\<newline>'',
      ''                    if (cachedResponse) {\<newline>'',
      ''                        return cachedResponse;\<newline>'',
      ''                    }\<newline>'',
      ''                    '']\<close>

definition networkFirstText1 :: string where
  "networkFirstText1 = concat networkFirstLines1"

definition networkFirstLines2 :: "string list" where
  \<open>networkFirstLines2 =
     [''\<newline>'',
      ''                    throw error;\<newline>'',
      ''                });\<newline>'',
      ''            })\<newline>'',
      ''    );'']\<close>

definition networkFirstText2 :: string where
  "networkFirstText2 = concat networkFirstLines2"

text \<open>The \<^verbatim>\<open>network-first\<close> body of the fetch listener; the offline fallback is spliced in when enabled.\<close>

definition generateNetworkFirstStrategy :: "config \<Rightarrow> string" where
  "generateNetworkFirstStrategy cfg =
     concat
      [networkFirstText1,
       (if enableOffline cfg then networkFirstTextOffline else []),
       networkFirstText2]"

definition staleWhileRevalidateLinesOffline :: "string list" where
  \<open>staleWhileRevalidateLinesOffline =
     [''\<newline>'',
      ''                if (isNavigationRequest(event.request)) {\<newline>'',
      ''                    return caches.match(OFFLINE_URL);\<newline>'',
      ''                }'']\<close>

definition staleWhileRevalidateTextOffline :: string where
  "staleWhileRevalidateTextOffline = concat staleWhileRevalidateLinesOffline"

definition staleWhileRevalidateLines1 :: "string list" where
  \<open>staleWhileRevalidateLines1 =
     [''    // Stale While Revalidate Strategy - Balanced approach\<newline>'',
      ''    if (event.request.method !== 'GET') {\<newline>'',
      ''        return;\<newline>'',
      ''    }\<newline>'',
      ''\<newline>'',
      ''    event.respondWith(\<newline>'',
      ''        caches.match(event.request).then(cachedResponse => {\<newline>'',
      ''            const fetchPromise = fetch(event.request).then(response => {\<newline>'',
      ''                if (response.status === 200) {\<newline>'',
      ''                    const responseToCache = response.clone();\<newline>'',
      ''                    caches.open(CACHE_NAME).then(cache => {\<newline>'',
      ''                        cache.put(event.request, responseToCache);\<newline>'',
      ''                    });\<newline>'',
      ''                }\<newline>'',
      ''                return response;\<newline>'',
      ''            }).catch(error => {\<newline>'',
      ''                '']\<close>

definition staleWhileRevalidateText1 :: string where
  "staleWhileRevalidateText1 = concat staleWhileRevalidateLines1"

definition staleWhileRevalidateLines2 :: "string list" where
  \<open>staleWhileRevalidateLines2 =
     [''\<newline>'',
      ''                throw error;\<newline>'',
      ''            });\<newline>'',
      ''\<newline>'',
      ''            return cachedResponse || fetchPromise;\<newline>'',
      ''        })\<newline>'',
      ''    );'']\<close>

definition staleWhileRevalidateText2 :: string where
  "staleWhileRevalidateText2 = concat staleWhileRevalidateLines2"

text \<open>The \<^verbatim>\<open>stale-while-revalidate\<close> body of the fetch listener; the offline fallback is spliced in when enabled.\<close>

definition generateStaleWhileRevalidateStrategy :: "config \<Rightarrow> string" where
  "generateStaleWhileRevalidateStrategy cfg =
     concat
      [staleWhileRevalidateText1,
       (if enableOffline cfg then staleWhileRevalidateTextOffline else []),
       staleWhileRevalidateText2]"

text \<open>The table \<^verbatim>\<open>cacheStrategies\<close> and the text that the template writes for
  \<^verbatim>\<open>cacheStrategies[this.config.cacheStrategy]\<close>; a key that is not in the table
  gives \<^verbatim>\<open>undefined\<close>.\<close>

definition cacheStrategyTable :: "config \<Rightarrow> (string \<times> string) list" where
  "cacheStrategyTable cfg =
     [(''cache-first'', generateCacheFirstStrategy cfg),
      (''network-first'', generateNetworkFirstStrategy cfg),
      (''stale-while-revalidate'', generateStaleWhileRevalidateStrategy cfg)]"

definition cacheStrategies :: "config \<Rightarrow> string" where
  "cacheStrategies cfg =
     (case map_of (cacheStrategyTable cfg) (cacheStrategy cfg) of
        Some body \<Rightarrow> body
      | None \<Rightarrow> ''undefined'')"

definition notificationLines1 :: "string list" where
  \<open>notificationLines1 =
     [''\<newline>'',
      ''// Push notification handler\<newline>'',
      ''self.addEventListener('push', event => {\<newline>'',
      ''    console.log('[Service Worker] Push received');\<newline>'',
      ''    \<newline>'',
      ''    const options = {\<newline>'',
      ''        body: event.data ? event.data.text() : 'New notification from '']\<close>

definition notificationText1 :: string where
  "notificationText1 = concat notificationLines1"

definition notificationLines2 :: "string list" where
  \<open>notificationLines2 =
     [[CHR 0x27] @ '',\<newline>'',
      ''        icon: '' @ [CHR 0x27]]\<close>

definition notificationText2 :: string where
  "notificationText2 = concat notificationLines2"

definition notificationLines3 :: "string list" where
  \<open>notificationLines3 =
     [''icons/icon-192x192.png',\<newline>'',
      ''        badge: '' @ [CHR 0x27]]\<close>

definition notificationText3 :: string where
  "notificationText3 = concat notificationLines3"

definition notificationLines4 :: "string list" where
  \<open>notificationLines4 =
     [''icons/icon-72x72.png',\<newline>'',
      ''        vibrate: [200, 100, 200],\<newline>'',
      ''        tag: 'notification-tag',\<newline>'',
      ''        requireInteraction: false,\<newline>'',
      ''        actions: [\<newline>'',
      ''            { action: 'open', title: 'Open App' },\<newline>'',
      ''            { action: 'close', title: 'Close' }\<newline>'',
      ''        ]\<newline>'',
      ''    };\<newline>'',
      ''\<newline>'',
      ''    event.waitUntil(\<newline>'',
      ''        self.registration.showNotification('' @ [CHR 0x27]]\<close>

definition notificationText4 :: string where
  "notificationText4 = concat notificationLines4"

definition notificationLines5 :: "string list" where
  \<open>notificationLines5 =
     [[CHR 0x27] @ '', options)\<newline>'',
      ''    );\<newline>'',
      ''});\<newline>'',
      ''\<newline>'',
      ''// Notification click handler\<newline>'',
      ''self.addEventListener('notificationclick', event => {\<newline>'',
      ''    console.log('[Service Worker] Notification clicked');\<newline>'',
      ''    event.notification.close();\<newline>'',
      ''\<newline>'',
      ''    if (event.action === 'open' || !event.action) {\<newline>'',
      ''        event.waitUntil(\<newline>'',
      ''            clients.openWindow('' @ [CHR 0x27]]\<close>

definition notificationText5 :: string where
  "notificationText5 = concat notificationLines5"

definition notificationLines6 :: "string list" where
  \<open>notificationLines6 =
     [[CHR 0x27] @ '')\<newline>'',
      ''        );\<newline>'',
      ''    }\<newline>'',
      ''});'']\<close>

definition notificationText6 :: string where
  "notificationText6 = concat notificationLines6"

text \<open>The push and notification-click listeners.\<close>

definition generateNotificationHandlers :: "config \<Rightarrow> string" where
  "generateNotificationHandlers cfg =
     concat
      [notificationText1,
       name cfg,
       notificationText2,
       startUrl cfg,
       notificationText3,
       startUrl cfg,
       notificationText4,
       name cfg,
       notificationText5,
       startUrl cfg,
       notificationText6]"

definition serviceWorkerLines1 :: "string list" where
  \<open>serviceWorkerLines1 =
     [''/**\<newline>'',
      '' * Service Worker for '']\<close>

definition serviceWorkerText1 :: string where
  "serviceWorkerText1 = concat serviceWorkerLines1"

definition serviceWorkerLines2 :: "string list" where
  \<open>serviceWorkerLines2 =
     [''\<newline>'',
      '' * Generated by PWA Converter v2.0.1\<newline>'',
      '' * Cache Strategy: '']\<close>

definition serviceWorkerText2 :: string where
  "serviceWorkerText2 = concat serviceWorkerLines2"

definition serviceWorkerLines3 :: "string list" where
  \<open>serviceWorkerLines3 =
     [''\<newline>'',
      '' * Folder: '']\<close>

definition serviceWorkerText3 :: string where
  "serviceWorkerText3 = concat serviceWorkerLines3"

definition serviceWorkerLines4 :: "string list" where
  \<open>serviceWorkerLines4 =
     [''\<newline>'',
      '' * Total Files Cached: '']\<close>

definition serviceWorkerText4 :: string where
  "serviceWorkerText4 = concat serviceWorkerLines4"

definition serviceWorkerLines5 :: "string list" where
  \<open>serviceWorkerLines5 =
     [''\<newline>'',
      '' */\<newline>'',
      ''\<newline>'',
      ''const CACHE_NAME = '' @ [CHR 0x27]]\<close>

definition serviceWorkerText5 :: string where
  "serviceWorkerText5 = concat serviceWorkerLines5"

definition serviceWorkerLines6 :: "string list" where
  \<open>serviceWorkerLines6 =
     [[CHR 0x27] @ '';\<newline>'',
      ''const OFFLINE_URL = '' @ [CHR 0x27]]\<close>

definition serviceWorkerText6 :: string where
  "serviceWorkerText6 = concat serviceWorkerLines6"

definition serviceWorkerLines7 :: "string list" where
  \<open>serviceWorkerLines7 =
     [[CHR 0x27] @ '';\<newline>'',
      ''\<newline>'',
      ''const urlsToCache = '']\<close>

definition serviceWorkerText7 :: string where
  "serviceWorkerText7 = concat serviceWorkerLines7"

definition serviceWorkerLines8 :: "string list" where
  \<open>serviceWorkerLines8 =
     ['';\<newline>'',
      ''\<newline>'',
      ''// Install event - cache ALL resources\<newline>'',
      ''self.addEventListener('install', event => {\<newline>'',
      ''    console.log('[Service Worker] Installing for '']\<close>

definition serviceWorkerText8 :: string where
  "serviceWorkerText8 = concat serviceWorkerLines8"

definition serviceWorkerLines9 :: "string list" where
  \<open>serviceWorkerLines9 =
     [''...');\<newline>'',
      ''    console.log('[Service Worker] Caching '']\<close>

definition serviceWorkerText9 :: string where
  "serviceWorkerText9 = concat serviceWorkerLines9"

definition serviceWorkerLines10 :: "string list" where
  \<open>serviceWorkerLines10 =
     ['' files...');\<newline>'',
      ''    event.waitUntil(\<newline>'',
      ''        caches.open(CACHE_NAME)\<newline>'',
      ''            .then(cache => {\<newline>'',
      ''                console.log('[Service Worker] Caching app shell and all files');\<newline>'',
      ''                return cache.addAll(urlsToCache);\<newline>'',
      ''            })\<newline>'',
      ''            .then(() => {\<newline>'',
      ''                console.log('[Service Worker] All files cached successfully');\<newline>'',
      ''                return self.skipWaiting();\<newline>'',
      ''            })\<newline>'',
      ''            .catch(error => {\<newline>'',
      ''                console.error('[Service Worker] Cache failed:', error);\<newline>'',
      ''            })\<newline>'',
      ''    );\<newline>'',
      ''});\<newline>'',
      ''\<newline>'',
      ''// Activate event - clean up old caches\<newline>'',
      ''self.addEventListener('activate', event => {\<newline>'',
      ''    console.log('[Service Worker] Activating...');\<newline>'',
      ''    event.waitUntil(\<newline>'',
      ''        caches.keys().then(cacheNames => {\<newline>'',
      ''            return Promise.all(\<newline>'',
      ''                cacheNames\<newline>'',
      ''                    .filter(name => name !== CACHE_NAME)\<newline>'',
      ''                    .map(name => {\<newline>'',
      ''                        console.log('[Service Worker] Deleting old cache:', name);\<newline>'',
      ''                        return caches.delete(name);\<newline>'',
      ''                    })\<newline>'',
      ''            );\<newline>'',
      ''        }).then(() => self.clients.claim())\<newline>'',
      ''    );\<newline>'',
      ''});\<newline>'',
      ''\<newline>'',
      ''// Fetch event - serve from cache or network\<newline>'',
      ''self.addEventListener('fetch', event => {\<newline>'',
      ''    '']\<close>

definition serviceWorkerText10 :: string where
  "serviceWorkerText10 = concat serviceWorkerLines10"

definition serviceWorkerLines11 :: "string list" where
  \<open>serviceWorkerLines11 =
     [''\<newline>'',
      ''});\<newline>'',
      ''\<newline>'']\<close>

definition serviceWorkerText11 :: string where
  "serviceWorkerText11 = concat serviceWorkerLines11"

definition serviceWorkerLines12 :: "string list" where
  \<open>serviceWorkerLines12 =
     [''\<newline>'',
      ''\<newline>'',
      ''// Background sync (if supported)\<newline>'',
      ''self.addEventListener('sync', event => {\<newline>'',
      ''    if (event.tag === 'sync-data') {\<newline>'',
      ''        event.waitUntil(syncData());\<newline>'',
      ''    }\<newline>'',
      ''});\<newline>'',
      ''\<newline>'',
      ''async function syncData() {\<newline>'',
      ''    console.log('[Service Worker] Background sync triggered');\<newline>'',
      ''    // Implement your sync logic here\<newline>'',
      ''}\<newline>'',
      ''\<newline>'',
      ''// Helper function to check if request is navigational\<newline>'',
      ''function isNavigationRequest(request) {\<newline>'',
      ''    return request.mode === 'navigate' || \<newline>'',
      ''           (request.method === 'GET' && request.headers.get('accept').includes('text/html'));\<newline>'',
      ''}\<newline>'',
      ''\<newline>'',
      ''console.log('[Service Worker] Loaded successfully for '']\<close>

definition serviceWorkerText12 :: string where
  "serviceWorkerText12 = concat serviceWorkerLines12"

definition serviceWorkerLines13 :: "string list" where
  \<open>serviceWorkerLines13 =
     [[CHR 0x27] @ '');\<newline>'',
      ''console.log('[Service Worker] Scope: '']\<close>

definition serviceWorkerText13 :: string where
  "serviceWorkerText13 = concat serviceWorkerLines13"

definition serviceWorkerLines14 :: "string list" where
  \<open>serviceWorkerLines14 =
     [[CHR 0x27] @ '');\<newline>'',
      ''console.log('[Service Worker] Caching '']\<close>

definition serviceWorkerText14 :: string where
  "serviceWorkerText14 = concat serviceWorkerLines14"

definition serviceWorkerLines15 :: "string list" where
  \<open>serviceWorkerLines15 =
     ['' files including all your assets');'']\<close>

definition serviceWorkerText15 :: string where
  "serviceWorkerText15 = concat serviceWorkerLines15"

text \<open>The service-worker script: header, cache name, precache list, the install and activate listeners, the fetch listener with the selected strategy, the optional notification listeners, the sync stub.\<close>

definition generateServiceWorker :: "config \<Rightarrow> files \<Rightarrow> string" where
  "generateServiceWorker cfg st =
     concat
      [serviceWorkerText1,
       name cfg,
       serviceWorkerText2,
       cacheStrategy cfg,
       serviceWorkerText3,
       folderName cfg,
       serviceWorkerText4,
       showNat (length (urlsToCache cfg st)),
       serviceWorkerText5,
       cacheName cfg,
       serviceWorkerText6,
       (if enableOffline cfg then startUrl cfg @ ''offline.html'' else []),
       serviceWorkerText7,
       stringify 0 (JArr (map JStr (urlsToCache cfg st))),
       serviceWorkerText8,
       name cfg,
       serviceWorkerText9,
       showNat (length (urlsToCache cfg st)),
       serviceWorkerText10,
       cacheStrategies cfg,
       serviceWorkerText11,
       (if enableNotifications cfg then generateNotificationHandlers cfg else []),
       serviceWorkerText12,
       name cfg,
       serviceWorkerText13,
       scope cfg,
       serviceWorkerText14,
       showNat (length (urlsToCache cfg st)),
       serviceWorkerText15]"

section \<open>The injected root document\<close>

definition appleMetaLines1 :: "string list" where
  \<open>appleMetaLines1 =
     [''    <meta name="apple-mobile-web-app-capable" content="yes">\<newline>'',
      ''    <meta name="apple-mobile-web-app-status-bar-style" content="default">\<newline>'',
      ''    <meta name="apple-mobile-web-app-title" content="'']\<close>

definition appleMetaText1 :: string where
  "appleMetaText1 = concat appleMetaLines1"

definition appleMetaLines2 :: "string list" where
  \<open>appleMetaLines2 =
     [''">\<newline>'',
      ''    <link rel="apple-touch-icon" href="icons/icon-192x192.png">'']\<close>

definition appleMetaText2 :: string where
  "appleMetaText2 = concat appleMetaLines2"

text \<open>The Apple meta tags.\<close>

definition appleMeta :: "config \<Rightarrow> string" where
  "appleMeta cfg =
     concat
      [appleMetaText1,
       shortName cfg,
       appleMetaText2]"

definition swRegistrationLines1 :: "string list" where
  \<open>swRegistrationLines1 =
     [''\<newline>'',
      ''    <script>\<newline>'',
      ''        // PWA Service Worker Registration\<newline>'',
      ''        // Generated by PWA Converter v2.0.1\<newline>'',
      ''        if ('serviceWorker' in navigator) {\<newline>'',
      ''            window.addEventListener('load', () => {\<newline>'',
      ''                // Use RELATIVE path for service worker (works with multi-app setup)\<newline>'',
      ''                navigator.serviceWorker.register('sw.js')\<newline>'',
      ''                    .then(registration => {\<newline>'',
      ''                        console.log('' @ [CHR 0x27] @ [CHR 0xE2, CHR 0x9C, CHR 0x93] @ '' Service Worker registered:', registration.scope);\<newline>'',
      ''                        console.log('' @ [CHR 0x27] @ [CHR 0xE2, CHR 0x9C, CHR 0x93] @ '' Service Worker URL:', registration.active ? registration.active.scriptURL : 'installing...');\<newline>'',
      ''                        console.log('' @ [CHR 0x27] @ [CHR 0xE2, CHR 0x9C, CHR 0x93] @ '' App: '']\<close>

definition swRegistrationText1 :: string where
  "swRegistrationText1 = concat swRegistrationLines1"

definition swRegistrationLines2 :: "string list" where
  \<open>swRegistrationLines2 =
     [[CHR 0x27] @ '');\<newline>'',
      ''                        console.log('' @ [CHR 0x27] @ [CHR 0xE2, CHR 0x9C, CHR 0x93] @ '' Folder: '']\<close>

definition swRegistrationText2 :: string where
  "swRegistrationText2 = concat swRegistrationLines2"

definition swRegistrationLines3 :: "string list" where
  \<open>swRegistrationLines3 =
     [[CHR 0x27] @ '');\<newline>'',
      ''                        console.log('' @ [CHR 0x27] @ [CHR 0xE2, CHR 0x9C, CHR 0x93] @ '' Total files cached: '']\<close>

definition swRegistrationText3 :: string where
  "swRegistrationText3 = concat swRegistrationLines3"

definition swRegistrationLines4 :: "string list" where
  \<open>swRegistrationLines4 =
     [[CHR 0x27] @ ''); // +3 for manifest, sw, offline\<newline>'',
      ''                        \<newline>'',
      ''                        // Check for updates periodically\<newline>'',
      ''                        setInterval(() => {\<newline>'',
      ''                            registration.update();\<newline>'',
      ''                        }, 60000); // Check every minute\<newline>'',
      ''                    })\<newline>'',
      ''                    .catch(error => {\<newline>'',
      ''                        console.error('' @ [CHR 0x27] @ [CHR 0xE2, CHR 0x9C, CHR 0x97] @ '' Service Worker registration failed:', error);\<newline>'',
      ''                    });\<newline>'',
      ''            });\<newline>'',
      ''        } else {\<newline>'',
      ''            console.warn('' @ [CHR 0x27] @ [CHR 0xE2, CHR 0x9A, CHR 0xA0] @ '' Service Workers not supported in this browser');\<newline>'',
      ''        }\<newline>'',
      ''\<newline>'',
      ''        // PWA Install Prompt\<newline>'',
      ''        let deferredPrompt;\<newline>'',
      ''        window.addEventListener('beforeinstallprompt', (e) => {\<newline>'',
      ''            e.preventDefault();\<newline>'',
      ''            deferredPrompt = e;\<newline>'',
      ''            console.log('' @ [CHR 0x27] @ [CHR 0xF0, CHR 0x9F, CHR 0x92, CHR 0xA1] @ '' PWA install prompt available');\<newline>'',
      ''            // Show custom install UI\<newline>'',
      ''            showInstallPromotion();\<newline>'',
      ''        });\<newline>'',
      ''\<newline>'',
      ''        function showInstallPromotion() {\<newline>'',
      ''            // You can implement custom install UI here\<newline>'',
      ''            console.log('' @ [CHR 0x27] @ [CHR 0xF0, CHR 0x9F, CHR 0x93, CHR 0xB1] @ '' App can be installed - Click browser menu or use custom UI');\<newline>'',
      ''        }\<newline>'',
      ''\<newline>'',
      ''        // Install PWA function (call from your custom install button)\<newline>'',
      ''        async function installPWA() {\<newline>'',
      ''            if (!deferredPrompt) {\<newline>'',
      ''                console.log('' @ [CHR 0x27] @ [CHR 0xE2, CHR 0x9D, CHR 0x8C] @ '' Install prompt not available');\<newline>'',
      ''                return;\<newline>'',
      ''            }\<newline>'',
      ''            deferredPrompt.prompt();\<newline>'',
      ''            const { outcome } = await deferredPrompt.userChoice;\<newline>'',
      ''            console.log(`User response to install prompt: ${outcome}`);\<newline>'',
      ''            deferredPrompt = null;\<newline>'',
      ''        }\<newline>'',
      ''\<newline>'',
      ''        // Track installation\<newline>'',
      ''        window.addEventListener('appinstalled', () => {\<newline>'',
      ''            console.log('' @ [CHR 0x27] @ [CHR 0xE2, CHR 0x9C, CHR 0x85] @ '' PWA installed successfully!');\<newline>'',
      ''            console.log('' @ [CHR 0x27] @ [CHR 0xE2, CHR 0x9C, CHR 0x85] @ '' App: '']\<close>

definition swRegistrationText4 :: string where
  "swRegistrationText4 = concat swRegistrationLines4"

definition swRegistrationLines5 :: "string list" where
  \<open>swRegistrationLines5 =
     [[CHR 0x27] @ '');\<newline>'',
      ''            console.log('' @ [CHR 0x27] @ [CHR 0xE2, CHR 0x9C, CHR 0x85] @ '' App ID: '']\<close>

definition swRegistrationText5 :: string where
  "swRegistrationText5 = concat swRegistrationLines5"

definition swRegistrationLines6 :: "string list" where
  \<open>swRegistrationLines6 =
     [[CHR 0x27] @ '');\<newline>'',
      ''            console.log('' @ [CHR 0x27] @ [CHR 0xE2, CHR 0x9C, CHR 0x85] @ '' Folder: '']\<close>

definition swRegistrationText6 :: string where
  "swRegistrationText6 = concat swRegistrationLines6"

definition swRegistrationLines7 :: "string list" where
  \<open>swRegistrationLines7 =
     [[CHR 0x27] @ '');\<newline>'',
      ''            deferredPrompt = null;\<newline>'',
      ''        });\<newline>'',
      ''\<newline>'',
      ''        // Display mode detection\<newline>'',
      ''        function getPWADisplayMode() {\<newline>'',
      ''            const isStandalone = window.matchMedia('(display-mode: standalone)').matches;\<newline>'',
      ''            if (document.referrer.startsWith('android-app://')) {\<newline>'',
      ''                return 'twa';\<newline>'',
      ''            } else if (navigator.standalone || isStandalone) {\<newline>'',
      ''                return 'standalone';\<newline>'',
      ''            }\<newline>'',
      ''            return 'browser';\<newline>'',
      ''        }\<newline>'',
      ''\<newline>'',
      ''        const displayMode = getPWADisplayMode();\<newline>'',
      ''        console.log('' @ [CHR 0x27] @ [CHR 0xF0, CHR 0x9F, CHR 0x96, CHR 0xA5, CHR 0xEF, CHR 0xB8, CHR 0x8F] @ '' Display mode:', displayMode);\<newline>'',
      ''        \<newline>'',
      ''        // Log PWA configuration\<newline>'',
      ''        console.log('' @ [CHR 0x27] @ [CHR 0xE2, CHR 0x9A, CHR 0x99, CHR 0xEF, CHR 0xB8, CHR 0x8F] @ '' PWA Configuration:');\<newline>'',
      ''        console.log('  - App Name: '']\<close>

definition swRegistrationText7 :: string where
  "swRegistrationText7 = concat swRegistrationLines7"

definition swRegistrationLines8 :: "string list" where
  \<open>swRegistrationLines8 =
     [[CHR 0x27] @ '');\<newline>'',
      ''        console.log('  - App ID: '']\<close>

definition swRegistrationText8 :: string where
  "swRegistrationText8 = concat swRegistrationLines8"

definition swRegistrationLines9 :: "string list" where
  \<open>swRegistrationLines9 =
     [[CHR 0x27] @ '');\<newline>'',
      ''        console.log('  - Start URL: '']\<close>

definition swRegistrationText9 :: string where
  "swRegistrationText9 = concat swRegistrationLines9"

definition swRegistrationLines10 :: "string list" where
  \<open>swRegistrationLines10 =
     [[CHR 0x27] @ '');\<newline>'',
      ''        console.log('  - Scope: '']\<close>

definition swRegistrationText10 :: string where
  "swRegistrationText10 = concat swRegistrationLines10"

definition swRegistrationLines11 :: "string list" where
  \<open>swRegistrationLines11 =
     [[CHR 0x27] @ '');\<newline>'',
      ''        console.log('  - Folder: '']\<close>

definition swRegistrationText11 :: string where
  "swRegistrationText11 = concat swRegistrationLines11"

definition swRegistrationLines12 :: "string list" where
  \<open>swRegistrationLines12 =
     [[CHR 0x27] @ '');\<newline>'',
      ''        console.log('  - Files included: '']\<close>

definition swRegistrationText12 :: string where
  "swRegistrationText12 = concat swRegistrationLines12"

definition swRegistrationLines13 :: "string list" where
  \<open>swRegistrationLines13 =
     [[CHR 0x27] @ '');\<newline>'',
      ''    </script>'']\<close>

definition swRegistrationText13 :: string where
  "swRegistrationText13 = concat swRegistrationLines13"

text \<open>The registration script block.\<close>

definition swRegistration :: "config \<Rightarrow> files \<Rightarrow> string" where
  "swRegistration cfg st =
     concat
      [swRegistrationText1,
       name cfg,
       swRegistrationText2,
       folderName cfg,
       swRegistrationText3,
       showNat (length (allFiles st) + 3),
       swRegistrationText4,
       name cfg,
       swRegistrationText5,
       appId cfg,
       swRegistrationText6,
       folderName cfg,
       swRegistrationText7,
       name cfg,
       swRegistrationText8,
       appId cfg,
       swRegistrationText9,
       startUrl cfg,
       swRegistrationText10,
       scope cfg,
       swRegistrationText11,
       folderName cfg,
       swRegistrationText12,
       showNat (length (allFiles st)),
       swRegistrationText13]"

text \<open>The steps of \<^verbatim>\<open>injectPWACode\<close> on the text of the root document, in the order
  of the source. Each of the first four is guarded by a search in the lower-cased text;
  the last one has no guard.\<close>

definition viewportReplacement :: string where
  \<open>viewportReplacement =
     ''<head>\<newline>''
     @ ''    <meta name="viewport" content="width=device-width, initial-scale=1.0">''\<close>

definition themeColorTag :: "config \<Rightarrow> string" where
  \<open>themeColorTag cfg = ''<meta name="theme-color" content="'' @ themeColor cfg @ ''">''\<close>

definition manifestLink :: string where
  \<open>manifestLink = ''<link rel="manifest" href="manifest.json">''\<close>

definition ensureViewport :: "string \<Rightarrow> string" where
  "ensureViewport html =
     (if \<not> includes_str (toLowerCase html) ''viewport''
      then replaceFirstCI ''<head>'' viewportReplacement html else html)"

definition addThemeColor :: "config \<Rightarrow> string \<Rightarrow> string" where
  "addThemeColor cfg html =
     (if \<not> includes_str (toLowerCase html) ''theme-color''
      then replaceFirstCI ''</head>'' (''    '' @ themeColorTag cfg @ [CHR 0x0A] @ ''</head>'') html
      else html)"

definition addManifestLink :: "string \<Rightarrow> string" where
  "addManifestLink html =
     (if \<not> includes_str (toLowerCase html) ''manifest''
      then replaceFirstCI ''</head>'' (''    '' @ manifestLink @ [CHR 0x0A] @ ''</head>'') html
      else html)"

definition addAppleMeta :: "config \<Rightarrow> string \<Rightarrow> string" where
  "addAppleMeta cfg html =
     (if \<not> includes_str (toLowerCase html) ''apple-mobile-web-app''
      then replaceFirstCI ''</head>'' (appleMeta cfg @ [CHR 0x0A] @ ''</head>'') html
      else html)"

definition addRegistration :: "config \<Rightarrow> files \<Rightarrow> string \<Rightarrow> string" where
  "addRegistration cfg st html =
     replaceFirstCI ''</body>'' (swRegistration cfg st @ [CHR 0x0A] @ ''</body>'') html"

definition injectInto :: "config \<Rightarrow> files \<Rightarrow> string \<Rightarrow> string" where
  "injectInto cfg st html =
     addRegistration cfg st (addAppleMeta cfg (addManifestLink (addThemeColor cfg (ensureViewport html))))"

text \<open>\<^verbatim>\<open>injectPWACode\<close> starts from \<^verbatim>\<open>this.files.index.content\<close>; without a root
  document that read throws (\<open>None\<close>).\<close>

definition injectPWACode :: "config \<Rightarrow> files \<Rightarrow> string option" where
  "injectPWACode cfg st =
     (case index st of None \<Rightarrow> None | Some i \<Rightarrow> Some (injectInto cfg st (content i)))"

section \<open>The archive\<close>

text \<open>\<^verbatim>\<open>this.generatedFiles\<close>. A field that no run has set is \<open>None\<close>; the icons are
  an object from file name to image, kept in insertion order.\<close>

record generatedFiles =
  manifest :: "string option"
  serviceWorker :: "string option"
  html :: "string option"
  enhancedJs :: "string option"
  offline :: "string option"
  icons :: "(string \<times> string) list option"

text \<open>What \<^verbatim>\<open>zip.file(name, data)\<close> is given as data: a generated text (or
  \<^verbatim>\<open>undefined\<close> when the field was never set), an uploaded file, or an image.\<close>

datatype zipData = Text "string option" | Original upload | Image string

type_synonym archive = "string \<rightharpoonup> zipData"

text \<open>The loop over the user's files: the root document and the primary script are
  replaced by their generated versions, every other file is copied.\<close>

definition addUserFile :: "files \<Rightarrow> generatedFiles \<Rightarrow> archive \<Rightarrow> fileInfo \<Rightarrow> archive" where
  "addUserFile st g z file =
     (if path file = ''index.html'' then z(''index.html'' \<mapsto> Text (html g))
      else if (case js st of None \<Rightarrow> False | Some j \<Rightarrow> path file = keyPath j)
        then z(path file \<mapsto> Text (enhancedJs g))
      else z(path file \<mapsto> Original (blob file)))"

text \<open>A generated text counts as present when it is set and not empty.\<close>

definition truthy :: "string option \<Rightarrow> bool" where
  "truthy t = (case t of None \<Rightarrow> False | Some s \<Rightarrow> s \<noteq> [])"

definition addIcons :: "generatedFiles \<Rightarrow> archive \<Rightarrow> archive" where
  "addIcons g z =
     (case icons g of
        None \<Rightarrow> z
      | Some entries \<Rightarrow>
          foldl (\<lambda>acc entry. acc(''icons/'' @ fst entry \<mapsto> Image (snd entry))) z entries)"

text \<open>The entries of the archive that \<^verbatim>\<open>downloadAll\<close> builds, before compression.
  \<open>readme\<close> is the text that \<^verbatim>\<open>generateReadme\<close> returns.\<close>

definition downloadAll :: "files \<Rightarrow> generatedFiles \<Rightarrow> string \<Rightarrow> archive" where
  "downloadAll st g readme =
     (let zip1 = foldl (addUserFile st g) Map.empty (allFiles st);
          zip2 = zip1(''manifest.json'' \<mapsto> Text (manifest g));
          zip3 = zip2(''sw.js'' \<mapsto> Text (serviceWorker g));
          zip4 = (if truthy (offline g) then zip3(''offline.html'' \<mapsto> Text (offline g)) else zip3);
          zip5 = addIcons g zip4
      in zip5(''README.md'' \<mapsto> Text (Some readme)))"

section \<open>Notions used in the statements\<close>

text \<open>The comment block that opens the service-worker script, up to the first
  declaration.\<close>

definition swHeader :: "config \<Rightarrow> files \<Rightarrow> string" where
  "swHeader cfg st =
     concat
      [serviceWorkerText1,
       name cfg,
       serviceWorkerText2,
       cacheStrategy cfg,
       serviceWorkerText3,
       folderName cfg,
       serviceWorkerText4,
       showNat (length (urlsToCache cfg st)),
       [CHR 0x0A], '' */'', [CHR 0x0A], [CHR 0x0A]]"

text \<open>The scenario of the specification: a folder \<open>Demo\<close> that holds one file,
  \<open>index.html\<close>, converted with the cache-first strategy and without the offline page.\<close>

definition demoConfig :: config where
  "demoConfig =
     \<lparr>name = ''Demo'', shortName = ''Demo'', appId = ''demo-id'', folderName = ''demo'',
      description = [], themeColor = ''#2196F3'', backgroundColor = ''#ffffff'',
      startUrl = ''/demo/'', scope = ''/demo/'', display = ''standalone'',
      orientation = ''portrait-primary'', cacheStrategy = ''cache-first'',
      enableOffline = False, enableNotifications = False\<rparr>"

definition demoIndex :: upload where
  "demoIndex =
     \<lparr>webkitRelativePath = ''Demo/index.html'', uploadName = ''index.html'',
      uploadType = ''text/html'', uploadSize = 73,
      uploadBytes = ''<!doctype html><html><head><title>Demo</title></head><body></body></html>''\<rparr>"

definition emptyForm :: form where
  "emptyForm =
     \<lparr>folderNameInput = [], appIdInput = [], startUrlInput = [], scopeInput = [],
      startUrlUserModified = False, scopeUserModified = False\<rparr>"

definition freshApp :: app where
  "freshApp = \<lparr>files = emptyFiles, form = emptyForm, notices = [], nextEnabled = False\<rparr>"

definition demoFiles :: files where
  "demoFiles = files (handleFolderUpload freshApp [demoIndex])"

text \<open>No two hyphens in a row.\<close>

fun noDoubleHyphen :: "string \<Rightarrow> bool" where
  "noDoubleHyphen (c # d # cs) = (\<not> (c = CHR ''-'' \<and> d = CHR ''-'') \<and> noDoubleHyphen (d # cs))"
| "noDoubleHyphen _ = True"

text \<open>The quick reference that the loop of \<^verbatim>\<open>processAllFiles\<close> builds for a file, and a
  small text file under a given path of the chosen folder.\<close>

definition keyOf :: "upload \<Rightarrow> keyFile" where
  "keyOf f = \<lparr>keyPath = getRelativePath f, content = uploadBytes f, keyBlob = f\<rparr>"

definition textFile :: "string \<Rightarrow> string \<Rightarrow> upload" where
  "textFile p txt =
     \<lparr>webkitRelativePath = p, uploadName = last (split_on CHR ''/'' p), uploadType = [],
      uploadSize = length txt, uploadBytes = txt\<rparr>"

text \<open>The wording of the specification for the primary script: the first file that ends
  in \<open>.js\<close>, is not \<open>index.html\<close> and is not under a folder named \<open>node_modules\<close> or
  \<open>dist\<close>. A path is under a folder when one of its segments before the file name is that
  folder.\<close>

definition underFolder :: "string \<Rightarrow> string \<Rightarrow> bool" where
  "underFolder d p = (d \<in> set (butlast (split_on CHR ''/'' p)))"

definition specPrimaryScript :: "upload list \<Rightarrow> upload option" where
  "specPrimaryScript fs =
     find (\<lambda>f. endsWith (getRelativePath f) ''.js'' \<and> getRelativePath f \<noteq> ''index.html''
        \<and> \<not> underFolder ''node_modules'' (getRelativePath f)
        \<and> \<not> underFolder ''dist'' (getRelativePath f)) fs"

text \<open>The file of a list that the loop keeps as root document: the last one at
  \<open>index.html\<close>.\<close>

definition rootDocument :: "upload list \<Rightarrow> upload option" where
  "rootDocument fs = find (\<lambda>g. getRelativePath g = ''index.html'') (rev fs)"



text \<open>The name of the chosen folder: the first segment of the first file's path.\<close>

definition folderOf :: "upload \<Rightarrow> string" where
  "folderOf f = (case split_on CHR ''/'' (fullPath f) of [] \<Rightarrow> [] | p # ps \<Rightarrow> p)"

text \<open>The state that a successful upload of the demo folder leaves behind, and a second
  folder without a root document.\<close>

definition demoApp :: app where
  "demoApp = handleFolderUpload freshApp [demoIndex]"

text \<open>What the archive stores for a user file, the list of generated icons, and the paths
  that \<^verbatim>\<open>downloadAll\<close> writes for generated artifacts.\<close>

definition storedFor :: "files \<Rightarrow> generatedFiles \<Rightarrow> fileInfo \<Rightarrow> zipData" where
  "storedFor st g file =
     (if path file = ''index.html'' then Text (html g)
      else if (case js st of None \<Rightarrow> False | Some j \<Rightarrow> path file = keyPath j)
        then Text (enhancedJs g)
      else Original (blob file))"

definition iconEntries :: "generatedFiles \<Rightarrow> (string \<times> string) list" where
  "iconEntries g = (case icons g of None \<Rightarrow> [] | Some entries \<Rightarrow> entries)"

definition generatedPaths :: "generatedFiles \<Rightarrow> string set" where
  "generatedPaths g =
     {''manifest.json'', ''sw.js'', ''README.md''}
     \<union> (if truthy (offline g) then {''offline.html''} else {})
     \<union> (\<lambda>entry. ''icons/'' @ fst entry) ` set (iconEntries g)"

text \<open>The demo folder with a manifest of its own, and a generation run on it: manifest and
  service worker as generated, eight placeholder images.\<close>

definition demoWithManifest :: files where
  "demoWithManifest =
     files (handleFolderUpload freshApp [demoIndex, textFile ''Demo/manifest.json'' ''{}''])"

definition demoGenerated :: "files \<Rightarrow> generatedFiles" where
  "demoGenerated st =
     \<lparr>manifest = Some (generateManifest demoConfig),
      serviceWorker = Some (generateServiceWorker demoConfig st),
      html = injectPWACode demoConfig st,
      enhancedJs = None,
      offline = None,
      icons = Some (map (\<lambda>sz. (''icon-'' @ showNat sz @ ''x'' @ showNat sz @ ''.png'', ''PNG'')) iconSizes)\<rparr>"

text \<open>The entry of the file list that the loop builds for an uploaded file.\<close>

definition infoOf :: "upload \<Rightarrow> fileInfo" where
  "infoOf f =
     \<lparr>path = getRelativePath f, blob = f,
      mimeType = (if uploadType f \<noteq> [] then uploadType f else guessFileType (getRelativePath f)),
      sizeBytes = uploadSize f, fileName = uploadName f\<rparr>"

text \<open>How often a text occurs in another one, counted by the places where it starts; and
  the marker of a fetch-handling block, the call that answers the request.\<close>

fun occurrences :: "string \<Rightarrow> string \<Rightarrow> nat" where
  "occurrences m [] = 0"
| "occurrences m (c # cs) = (if prefix m (c # cs) then 1 else 0) + occurrences m cs"

definition respondCall :: string where
  "respondCall = ''event.respondWith(''"

text \<open>No end piece of \<open>t\<close> but the empty one is a start of \<open>k\<close>; and the same for the
  proper end pieces of a marker \<open>m\<close>: an occurrence of \<open>m\<close> cannot begin before \<open>k\<close> and
  end inside it.\<close>

fun noTailStarts :: "string \<Rightarrow> string \<Rightarrow> bool" where
  "noTailStarts [] k = True"
| "noTailStarts (c # cs) k = (\<not> prefix (c # cs) k \<and> noTailStarts cs k)"

definition startSafe :: "string \<Rightarrow> string \<Rightarrow> bool" where
  "startSafe m k = noTailStarts (tl m) k"

text \<open>The pieces of the service-worker script in the order they are written: the lines of
  the template and the values put between them, before the strategy body and after it; the
  pieces of the three strategy bodies and of the notification listeners.\<close>

definition preSegments :: "config \<Rightarrow> files \<Rightarrow> string list" where
  "preSegments cfg st =
     serviceWorkerLines1 @ [name cfg] @ serviceWorkerLines2 @ [cacheStrategy cfg]
     @ serviceWorkerLines3 @ [folderName cfg] @ serviceWorkerLines4
     @ [showNat (length (urlsToCache cfg st))] @ serviceWorkerLines5 @ [cacheName cfg]
     @ serviceWorkerLines6 @ [if enableOffline cfg then startUrl cfg @ ''offline.html'' else []]
     @ serviceWorkerLines7 @ [stringify 0 (JArr (map JStr (urlsToCache cfg st)))]
     @ serviceWorkerLines8 @ [name cfg] @ serviceWorkerLines9
     @ [showNat (length (urlsToCache cfg st))] @ serviceWorkerLines10"

definition notificationSegments :: "config \<Rightarrow> string list" where
  "notificationSegments cfg =
     notificationLines1 @ [name cfg] @ notificationLines2 @ [startUrl cfg]
     @ notificationLines3 @ [startUrl cfg] @ notificationLines4 @ [name cfg]
     @ notificationLines5 @ [startUrl cfg] @ notificationLines6"

definition postSegments :: "config \<Rightarrow> files \<Rightarrow> string list" where
  "postSegments cfg st =
     serviceWorkerLines11 @ (if enableNotifications cfg then notificationSegments cfg else [])
     @ serviceWorkerLines12 @ [name cfg] @ serviceWorkerLines13 @ [scope cfg]
     @ serviceWorkerLines14 @ [showNat (length (urlsToCache cfg st))] @ serviceWorkerLines15"

definition cacheFirstSegments :: "config \<Rightarrow> string list" where
  "cacheFirstSegments cfg =
     cacheFirstLines1 @ (if enableOffline cfg then cacheFirstLinesOffline else []) @ cacheFirstLines2"

definition networkFirstSegments :: "config \<Rightarrow> string list" where
  "networkFirstSegments cfg =
     networkFirstLines1 @ (if enableOffline cfg then networkFirstLinesOffline else [])
     @ networkFirstLines2"

definition staleWhileRevalidateSegments :: "config \<Rightarrow> string list" where
  "staleWhileRevalidateSegments cfg =
     staleWhileRevalidateLines1
     @ (if enableOffline cfg then staleWhileRevalidateLinesOffline else [])
     @ staleWhileRevalidateLines2"

text \<open>Every piece of a list either cannot complete an occurrence of the marker that began
  before it, or lacks the marker's last character.\<close>

definition segmentsSafe :: "string \<Rightarrow> string list \<Rightarrow> bool" where
  "segmentsSafe m ss = list_all (\<lambda>s. startSafe m s \<or> last m \<notin> set s) ss"

text \<open>An application name, typed on one line, that closes the string it is written into
  and adds a fetch listener of its own.\<close>

definition injectedName :: string where
  \<open>injectedName =
     ''Demo'); self.addEventListener('fetch', event => event.respondWith(fetch(event.request))); console.log(''
     @ [CHR 0x27]\<close>

definition injectedConfig :: config where
  "injectedConfig = demoConfig\<lparr>name := injectedName\<rparr>"


text \<open>The opening and the closing of the fetch listener, around the strategy body, and the
  text that follows the call \<open>event.respondWith(\<close> in each of the three bodies.\<close>

definition fetchListenerOpening :: string where
  \<open>fetchListenerOpening = ''self.addEventListener('fetch', event => {\<newline>    ''\<close>

definition fetchListenerClosing :: string where
  \<open>fetchListenerClosing = ''\<newline>});\<newline>''\<close>

definition cacheFirstOpening :: string where
  \<open>cacheFirstOpening = ''\<newline>        caches.match(event.request)\<newline>''\<close>

definition networkFirstOpening :: string where
  \<open>networkFirstOpening = ''\<newline>        fetch(event.request)\<newline>''\<close>

definition staleWhileRevalidateOpening :: string where
  \<open>staleWhileRevalidateOpening = ''\<newline>        caches.match(event.request).then(cachedResponse => {\<newline>''\<close>

section \<open>Facts about the text primitives\<close>

lemma sublist_trans: "sublist (xs::'a list) ys \<Longrightarrow> sublist ys zs \<Longrightarrow> sublist xs zs"
  unfolding sublist_def by (metis append.assoc)

lemma set_showNat: "set (showNat n) \<subseteq> set digitChars"
proof (induction n rule: showNat.induct)
  case (1 n)
  have l: "length digitChars = 10"
    by (simp add: digitChars_def)
  have d: "digitChars ! k \<in> set digitChars" if "k < 10" for k
    using that l nth_mem[of k digitChars] by simp
  show ?case
  proof (cases "n < 10")
    case True
    then show ?thesis using d[of n] by (simp add: showNat.simps[of n])
  next
    case False
    then show ?thesis using 1 d[of "n mod 10"] by (simp add: showNat.simps[of n])
  qed
qed

lemma demo_sanitized: "sanitizeFolderName ''Demo'' = ''demo''"
  by (simp add: sanitizeFolderName_def toLowerCase_def lowerChar_def upperChars_def lowerChars_def
      trim_def isSpace_def removeSpecial_def nameChars_def digitChars_def stripEdgeHyphens_def)

lemma demo_valid: "validateHTML (uploadBytes demoIndex)"
  by (simp add: validateHTML_def demoIndex_def toLowerCase_def lowerChar_def upperChars_def
      lowerChars_def includes_str_def sublist_Cons_right)

lemma demo_relative_path: "getRelativePath demoIndex = ''index.html''"
  by (simp add: getRelativePath_def fullPath_def demoIndex_def)

lemma demoFiles_eq:
  "demoFiles = \<lparr>uploadedFolder = Some ''Demo'', sanitizedName = Some ''demo'',
      allFiles = [\<lparr>path = ''index.html'', blob = demoIndex, mimeType = ''text/html'',
                   sizeBytes = 73, fileName = ''index.html''\<rparr>],
      totalSize = 73,
      index = Some \<lparr>keyPath = ''index.html'', content = uploadBytes demoIndex, keyBlob = demoIndex\<rparr>,
      css = None, js = None, icon = None\<rparr>"
proof -
  have f: "fullPath demoIndex = ''Demo/index.html''"
    by (simp add: fullPath_def demoIndex_def)
  have t: "uploadType demoIndex = ''text/html''" "uploadSize demoIndex = 73"
    "uploadName demoIndex = ''index.html''"
    by (simp_all add: demoIndex_def)
  show ?thesis
    by (simp add: demoFiles_def freshApp_def uploadBody_def f t demo_sanitized demo_relative_path
        processAllFiles_def processFile_def Let_def emptyFiles_def maxSize_def warnSize_def
        validateFolderStructure_def demo_valid)
qed

section \<open>Sanitized folder names\<close>

lemma set_replaceRuns: "set (replaceRuns p s) \<subseteq> insert (CHR ''-'') (set s)"
  by (induction p s rule: replaceRuns.induct) auto

lemma set_removeSpecial: "set (removeSpecial s) \<subseteq> set nameChars"
  by (auto simp: removeSpecial_def)

lemma hyphen_nameChars: "CHR ''-'' \<in> set nameChars"
  by (simp add: nameChars_def)

lemma set_stripEdgeHyphens: "set (stripEdgeHyphens s) \<subseteq> set s"
  by (auto simp: stripEdgeHyphens_def Let_def split: list.splits dest: in_set_butlastD)

lemma stripEdgeHyphens_alt:
  "stripEdgeHyphens s =
     (let t = (case s of [] \<Rightarrow> [] | c # cs \<Rightarrow> if c = CHR ''-'' then cs else s)
      in if t \<noteq> [] \<and> last t = CHR ''-'' then butlast t else t)"
  by (simp add: stripEdgeHyphens_def)

lemma sublist_stripEdgeHyphens: "sublist (stripEdgeHyphens s) s"
proof -
  define t where "t = (case s of [] \<Rightarrow> [] | c # cs \<Rightarrow> if c = CHR ''-'' then cs else s)"
  have st: "sublist t s"
    by (auto simp: t_def sublist_Cons_right split: list.splits)
  have bt: "sublist (butlast t) t"
    by (metis prefix_imp_sublist prefixeq_butlast)
  have r: "stripEdgeHyphens s = (if t \<noteq> [] \<and> last t = CHR ''-'' then butlast t else t)"
    by (simp add: stripEdgeHyphens_def t_def)
  show ?thesis
    using st sublist_trans[OF bt st] r by (simp split: if_splits)
qed

lemma noDoubleHyphen_iff: "noDoubleHyphen s \<longleftrightarrow> \<not> sublist ''--'' s"
  by (induction s rule: noDoubleHyphen.induct) (auto simp: sublist_Cons_right)

lemma replaceRuns_nonempty: "replaceRuns p (c # cs) \<noteq> []"
  by (induction p "c # cs" arbitrary: c cs rule: replaceRuns.induct) auto

lemma replaceRuns_hyphen_hd: "hd (replaceRuns (\<lambda>c. c = CHR ''-'') (c # cs)) = c"
  by (induction "(\<lambda>c. c = CHR ''-'')" "c # cs" arbitrary: c cs rule: replaceRuns.induct) auto

lemma noDoubleHyphen_replaceRuns: "noDoubleHyphen (replaceRuns (\<lambda>c. c = CHR ''-'') s)"
proof (induction "(\<lambda>c. c = CHR ''-'')" s rule: replaceRuns.induct)
  case (3 c d cs)
  have "replaceRuns (\<lambda>c. c = CHR ''-'') (d # cs) \<noteq> []"
    by (rule replaceRuns_nonempty)
  then obtain e es where e: "replaceRuns (\<lambda>c. c = CHR ''-'') (d # cs) = e # es"
    by (cases "replaceRuns (\<lambda>c. c = CHR ''-'') (d # cs)") auto
  have "e = d"
    using replaceRuns_hyphen_hd[of d cs] e by simp
  with 3 e show ?case by auto
qed auto

lemma stripEdgeHyphens_edges:
  assumes "\<not> sublist ''--'' s"
  shows "\<not> prefix ''-'' (stripEdgeHyphens s) \<and> \<not> suffix ''-'' (stripEdgeHyphens s)"
proof -
  define t where "t = (case s of [] \<Rightarrow> [] | c # cs \<Rightarrow> if c = CHR ''-'' then cs else s)"
  have st: "sublist t s"
    by (auto simp: t_def sublist_Cons_right split: list.splits)
  have t1: "\<not> prefix ''-'' t"
    using assms by (auto simp: t_def sublist_Cons_right split: list.splits)
  have nd: "noDoubleHyphen t"
    using assms st sublist_trans noDoubleHyphen_iff by blast
  have r: "stripEdgeHyphens s = (if t \<noteq> [] \<and> last t = CHR ''-'' then butlast t else t)"
    by (simp add: stripEdgeHyphens_def t_def)
  have p: "\<not> prefix ''-'' (butlast t)"
    using t1 by (cases t) (auto split: if_splits)
  have q: "t \<noteq> [] \<Longrightarrow> last t = CHR ''-'' \<Longrightarrow> \<not> suffix ''-'' (butlast t)"
    using nd by (induction t rule: noDoubleHyphen.induct) (auto simp: suffix_Cons split: if_splits)
  have q2: "\<not> (t \<noteq> [] \<and> last t = CHR ''-'') \<Longrightarrow> \<not> suffix ''-'' t"
    by (auto simp: suffix_def)
  show ?thesis
    using r p q q2 t1 by auto
qed

lemma sanitize_no_double: "\<not> sublist ''--'' (sanitizeFolderName nm)"
proof
  assume "sublist ''--'' (sanitizeFolderName nm)"
  then have "sublist ''--''
      (replaceRuns (\<lambda>c. c = CHR ''-'') (removeSpecial (replaceRuns isSpace (trim (toLowerCase nm)))))"
    unfolding sanitizeFolderName_def using sublist_stripEdgeHyphens sublist_trans by blast
  then show False
    using noDoubleHyphen_replaceRuns noDoubleHyphen_iff by blast
qed

lemma sanitize_charset: "set (sanitizeFolderName nm) \<subseteq> set nameChars"
proof -
  let ?u = "replaceRuns (\<lambda>c. c = CHR ''-'') (removeSpecial (replaceRuns isSpace (trim (toLowerCase nm))))"
  have "set ?u \<subseteq> set nameChars"
    using set_replaceRuns[of "\<lambda>c. c = CHR ''-''" "removeSpecial (replaceRuns isSpace (trim (toLowerCase nm)))"]
      set_removeSpecial hyphen_nameChars by blast
  moreover have "sanitizeFolderName nm = stripEdgeHyphens ?u"
    by (simp add: sanitizeFolderName_def)
  ultimately show ?thesis
    using set_stripEdgeHyphens[of ?u] by auto
qed

lemma sanitize_edges:
  "\<not> prefix ''-'' (sanitizeFolderName nm) \<and> \<not> suffix ''-'' (sanitizeFolderName nm)"
proof -
  let ?u = "replaceRuns (\<lambda>c. c = CHR ''-'') (removeSpecial (replaceRuns isSpace (trim (toLowerCase nm))))"
  have "\<not> sublist ''--'' ?u"
    using noDoubleHyphen_replaceRuns noDoubleHyphen_iff by blast
  then show ?thesis
    using stripEdgeHyphens_edges[of ?u] by (simp add: sanitizeFolderName_def)
qed

text \<open>
  Claim C10. Whatever the input, the sanitized folder name is made of lower-case ASCII
  letters, digits and hyphens only, has no two hyphens in a row, and neither starts nor
  ends with a hyphen (it may be empty). The names derived from it stay in that alphabet:
  the cache name is the sanitized name followed by \<open>-v1\<close>, and the start URL and the
  scope that the upload fills in are the sanitized name between two slashes (they are left
  as they were when the sanitized name is empty).
\<close>

theorem sanitizeFolderName_alphabet:
  "set (sanitizeFolderName nm) \<subseteq> set ''abcdefghijklmnopqrstuvwxyz0123456789-''
   \<and> \<not> includes_str (sanitizeFolderName nm) ''--''
   \<and> \<not> prefix ''-'' (sanitizeFolderName nm)
   \<and> \<not> endsWith (sanitizeFolderName nm) ''-''
   \<and> set (cacheName (cfg\<lparr>folderName := sanitizeFolderName nm\<rparr>))
        \<subseteq> set ''abcdefghijklmnopqrstuvwxyz0123456789-''
   \<and> startUrlInput (updateUrlFields (sanitizeFolderName nm)
          (fm\<lparr>startUrlUserModified := False, scopeUserModified := False\<rparr>))
       = (if sanitizeFolderName nm = [] then startUrlInput fm
          else ''/'' @ sanitizeFolderName nm @ ''/'')
   \<and> scopeInput (updateUrlFields (sanitizeFolderName nm)
          (fm\<lparr>startUrlUserModified := False, scopeUserModified := False\<rparr>))
       = (if sanitizeFolderName nm = [] then scopeInput fm
          else ''/'' @ sanitizeFolderName nm @ ''/'')"
proof -
  have a: "set nameChars = set ''abcdefghijklmnopqrstuvwxyz0123456789-''"
    by (simp add: nameChars_def lowerChars_def digitChars_def)
  have c: "set (sanitizeFolderName nm) \<subseteq> set ''abcdefghijklmnopqrstuvwxyz0123456789-''"
    using sanitize_charset[of nm] a by simp
  have v: "set ''-v1'' \<subseteq> set ''abcdefghijklmnopqrstuvwxyz0123456789-''"
    by simp
  have n: "set (cacheName (cfg\<lparr>folderName := sanitizeFolderName nm\<rparr>))
        \<subseteq> set ''abcdefghijklmnopqrstuvwxyz0123456789-''"
    using c v unfolding cacheName_def by (simp del: set_simps)
  have u: "startUrlInput (updateUrlFields (sanitizeFolderName nm)
          (fm\<lparr>startUrlUserModified := False, scopeUserModified := False\<rparr>))
       = (if sanitizeFolderName nm = [] then startUrlInput fm
          else ''/'' @ sanitizeFolderName nm @ ''/'')"
    by (simp add: updateUrlFields_def Let_def)
  have s: "scopeInput (updateUrlFields (sanitizeFolderName nm)
          (fm\<lparr>startUrlUserModified := False, scopeUserModified := False\<rparr>))
       = (if sanitizeFolderName nm = [] then scopeInput fm
          else ''/'' @ sanitizeFolderName nm @ ''/'')"
    by (simp add: updateUrlFields_def Let_def)
  show ?thesis
    using c n u s sanitize_no_double[of nm] sanitize_edges[of nm]
    unfolding includes_str_def endsWith_def by blast
qed

section \<open>The manifest\<close>

lemma showNat_iconSizes:
  "showNat 72 = ''72''" "showNat 96 = ''96''" "showNat 128 = ''128''" "showNat 144 = ''144''"
  "showNat 152 = ''152''" "showNat 192 = ''192''" "showNat 384 = ''384''" "showNat 512 = ''512''"
  by (simp_all add: showNat.simps[of 72] showNat.simps[of 96] showNat.simps[of 128] showNat.simps[of 144]
      showNat.simps[of 152] showNat.simps[of 192] showNat.simps[of 384] showNat.simps[of 512]
      showNat.simps[of 7] showNat.simps[of 9] showNat.simps[of 12] showNat.simps[of 14]
      showNat.simps[of 15] showNat.simps[of 19] showNat.simps[of 38] showNat.simps[of 51]
      showNat.simps[of 1] showNat.simps[of "Suc 0"] showNat.simps[of 3] showNat.simps[of 5] digitChars_def)






section \<open>The cache name and the precache list in the script\<close>

lemma serviceWorker_opening:
  "\<exists>post. generateServiceWorker cfg st =
     swHeader cfg st
     @ ''const CACHE_NAME = '' @ [CHR 0x27] @ cacheName cfg @ [CHR 0x27] @ '';'' @ [CHR 0x0A]
     @ ''const OFFLINE_URL = '' @ [CHR 0x27]
     @ (if enableOffline cfg then startUrl cfg @ ''offline.html'' else []) @ [CHR 0x27] @ '';''
     @ [CHR 0x0A, CHR 0x0A]
     @ ''const urlsToCache = '' @ stringify 0 (JArr (map JStr (urlsToCache cfg st))) @ '';'' @ post"
  unfolding generateServiceWorker_def swHeader_def
  by (simp add: serviceWorkerText5_def serviceWorkerText6_def serviceWorkerText7_def
      serviceWorkerText8_def serviceWorkerLines5_def serviceWorkerLines6_def
      serviceWorkerLines7_def serviceWorkerLines8_def del: stringify.simps)

lemma autoFill_folderName:
  "sanitizedName st = Some s \<Longrightarrow> folderNameInput (autoFillConfiguration st fm) = s"
  by (simp add: autoFillConfiguration_def updateUrlFields_def Let_def)

text \<open>
  Claim C9. The configuration takes its folder name from the form field that the upload
  fills with the sanitized folder name. The cache name is then that sanitized name
  followed by \<open>-v1\<close>, it is what the script declares as \<open>CACHE_NAME\<close> right after
  its opening comment, and it depends on nothing but the folder name: two configurations
  with the same folder name get the same cache name.
\<close>

theorem cacheName_embedded:
  assumes "sanitizedName st = Some s"
    and "folderName cfg = folderNameInput (autoFillConfiguration st fm)"
  shows "cacheName cfg = s @ ''-v1''
    \<and> (\<exists>post. generateServiceWorker cfg st =
          swHeader cfg st @ ''const CACHE_NAME = '' @ [CHR 0x27] @ s @ ''-v1'' @ [CHR 0x27] @ '';'' @ post)
    \<and> (\<forall>cfg'. folderName cfg' = folderName cfg \<longrightarrow> cacheName cfg' = cacheName cfg)"
proof -
  have f: "folderName cfg = s"
    using assms autoFill_folderName by simp
  then have c: "cacheName cfg = s @ ''-v1''"
    by (simp add: cacheName_def)
  obtain post where "generateServiceWorker cfg st =
     swHeader cfg st
     @ ''const CACHE_NAME = '' @ [CHR 0x27] @ cacheName cfg @ [CHR 0x27] @ '';'' @ [CHR 0x0A]
     @ ''const OFFLINE_URL = '' @ [CHR 0x27]
     @ (if enableOffline cfg then startUrl cfg @ ''offline.html'' else []) @ [CHR 0x27] @ '';''
     @ [CHR 0x0A, CHR 0x0A]
     @ ''const urlsToCache = '' @ stringify 0 (JArr (map JStr (urlsToCache cfg st))) @ '';'' @ post"
    using serviceWorker_opening by blast
  then have "generateServiceWorker cfg st =
      swHeader cfg st @ ''const CACHE_NAME = '' @ [CHR 0x27] @ s @ ''-v1'' @ [CHR 0x27] @ '';''
      @ ([CHR 0x0A] @ ''const OFFLINE_URL = '' @ [CHR 0x27]
         @ (if enableOffline cfg then startUrl cfg @ ''offline.html'' else []) @ [CHR 0x27] @ '';''
         @ [CHR 0x0A, CHR 0x0A]
         @ ''const urlsToCache = '' @ stringify 0 (JArr (map JStr (urlsToCache cfg st))) @ '';'' @ post)"
    unfolding c by (simp del: stringify.simps)
  then have e: "\<exists>post. generateServiceWorker cfg st =
          swHeader cfg st @ ''const CACHE_NAME = '' @ [CHR 0x27] @ s @ ''-v1'' @ [CHR 0x27] @ '';'' @ post"
    by blast
  have d: "\<forall>cfg'. folderName cfg' = folderName cfg \<longrightarrow> cacheName cfg' = cacheName cfg"
    by (simp add: cacheName_def)
  show ?thesis
    using c e d by blast
qed

theorem cacheName_embedded_witness:
  "cacheName demoConfig = ''demo-v1''
    \<and> (\<exists>post. generateServiceWorker demoConfig demoFiles =
          swHeader demoConfig demoFiles @ ''const CACHE_NAME = '' @ [CHR 0x27] @ ''demo-v1'' @ [CHR 0x27] @ '';'' @ post)"
proof -
  have a: "sanitizedName demoFiles = Some ''demo''"
    by (simp add: demoFiles_eq)
  have b: "folderName demoConfig = folderNameInput (autoFillConfiguration demoFiles emptyForm)"
    by (simp add: autoFill_folderName[OF a] demoConfig_def)
  show ?thesis
    using cacheName_embedded[OF a b] by simp
qed

lemma push_all:
  "foldl (\<lambda>urls file. urls @ [u @ path file]) urls0 fs = urls0 @ map (\<lambda>file. u @ path file) fs"
  by (induction fs arbitrary: urls0) auto

lemma urlsToCache_eq:
  "urlsToCache cfg st =
     [startUrl cfg, startUrl cfg @ ''index.html'', startUrl cfg @ ''manifest.json'']
     @ map (\<lambda>file. startUrl cfg @ path file) (allFiles st)
     @ (if enableOffline cfg then [startUrl cfg @ ''offline.html''] else [])"
  by (simp add: urlsToCache_def Let_def push_all)



section \<open>Folder ingestion\<close>

lemma foldl_sizes: "foldl (\<lambda>sum g. sum + uploadSize g) n fs = n + sum_list (map uploadSize fs)"
  by (induction fs arbitrary: n) auto

lemma index_not_script: "\<not> endsWith ''index.html'' ''.js''" "\<not> endsWith ''index.html'' ''.css''"
  by (simp_all add: endsWith_def suffix_to_prefix)

lemma css_not_js: "endsWith p ''.css'' \<Longrightarrow> \<not> endsWith p ''.js''"
proof
  assume "endsWith p ''.css''" "endsWith p ''.js''"
  then have "suffix ''.css'' ''.js'' \<or> suffix ''.js'' ''.css''"
    unfolding endsWith_def by (rule suffix_same_cases)
  then show False
    by (simp add: suffix_to_prefix)
qed

lemma js_processFile:
  "js (processFile st f) =
     (case js st of
        Some j \<Rightarrow> Some j
      | None \<Rightarrow>
          if endsWith (getRelativePath f) ''.js''
             \<and> \<not> includes_str (getRelativePath f) ''node_modules''
             \<and> \<not> includes_str (getRelativePath f) ''dist''
          then Some (keyOf f) else None)"
  using index_not_script css_not_js[of "getRelativePath f"]
  by (auto simp: processFile_def Let_def keyOf_def split: option.splits)

lemma css_processFile:
  "css (processFile st f) =
     (case css st of
        Some c \<Rightarrow> Some c
      | None \<Rightarrow> if endsWith (getRelativePath f) ''.css'' then Some (keyOf f) else None)"
  using index_not_script
  by (auto simp: processFile_def Let_def keyOf_def split: option.splits)

lemma index_processFile:
  "index (processFile st f) =
     (if getRelativePath f = ''index.html'' then Some (keyOf f) else index st)"
  by (auto simp: processFile_def Let_def keyOf_def)

lemma js_foldl:
  "js (foldl processFile st fs) =
     (case js st of
        Some j \<Rightarrow> Some j
      | None \<Rightarrow>
          map_option keyOf
            (find (\<lambda>f. endsWith (getRelativePath f) ''.js''
               \<and> \<not> includes_str (getRelativePath f) ''node_modules''
               \<and> \<not> includes_str (getRelativePath f) ''dist'') fs))"
proof (induction fs arbitrary: st)
  case Nil
  then show ?case by (simp split: option.splits)
next
  case (Cons f fs)
  show ?case
    by (simp add: Cons js_processFile split: option.splits)
qed

lemma css_foldl:
  "css (foldl processFile st fs) =
     (case css st of
        Some c \<Rightarrow> Some c
      | None \<Rightarrow> map_option keyOf (find (\<lambda>f. endsWith (getRelativePath f) ''.css'') fs))"
proof (induction fs arbitrary: st)
  case Nil
  then show ?case by (simp split: option.splits)
next
  case (Cons f fs)
  show ?case
    by (simp add: Cons css_processFile split: option.splits)
qed

lemma index_foldl:
  "index (foldl processFile st fs) =
     (case rootDocument fs of Some g \<Rightarrow> Some (keyOf g) | None \<Rightarrow> index st)"
proof (induction fs arbitrary: st rule: rev_induct)
  case Nil
  then show ?case by (simp add: rootDocument_def)
next
  case (snoc f fs)
  show ?case
    by (simp add: snoc index_processFile rootDocument_def)
qed

lemma js_processAllFiles:
  "js st = None \<Longrightarrow>
   js (processAllFiles st fs) =
     map_option keyOf
       (find (\<lambda>f. endsWith (getRelativePath f) ''.js''
          \<and> \<not> includes_str (getRelativePath f) ''node_modules''
          \<and> \<not> includes_str (getRelativePath f) ''dist'') fs)"
  by (simp add: processAllFiles_def js_foldl)

lemma css_processAllFiles:
  "css st = None \<Longrightarrow>
   css (processAllFiles st fs) =
     map_option keyOf (find (\<lambda>f. endsWith (getRelativePath f) ''.css'') fs)"
  by (simp add: processAllFiles_def css_foldl)

lemma index_processAllFiles:
  "index (processAllFiles st fs) =
     (case rootDocument fs of Some g \<Rightarrow> Some (keyOf g) | None \<Rightarrow> index st)"
  by (simp add: processAllFiles_def index_foldl split: option.splits)

lemma relative_path_textFile:
  "getRelativePath (textFile ''App/b.js'' t) = ''b.js''"
  "getRelativePath (textFile ''App/a.js'' t) = ''a.js''"
  "getRelativePath (textFile ''App/distance.js'' t) = ''distance.js''"
  "getRelativePath (textFile ''App/main.js'' t) = ''main.js''"
  "getRelativePath (textFile ''Docs/readme.txt'' t) = ''readme.txt''"
  by (simp_all add: getRelativePath_def fullPath_def textFile_def)

lemma script_tests:
  "endsWith ''b.js'' ''.js''" "endsWith ''a.js'' ''.js''"
  "endsWith ''distance.js'' ''.js''" "endsWith ''main.js'' ''.js''"
  "\<not> includes_str ''b.js'' ''node_modules''" "\<not> includes_str ''a.js'' ''node_modules''"
  "\<not> includes_str ''b.js'' ''dist''" "\<not> includes_str ''a.js'' ''dist''"
  "includes_str ''distance.js'' ''dist''"
  "\<not> includes_str ''main.js'' ''node_modules''" "\<not> includes_str ''main.js'' ''dist''"
  by (simp_all add: endsWith_def suffix_to_prefix includes_str_def sublist_Cons_right)

text \<open>
  Claim C7, as amended. Starting from a state in which no stylesheet and no script is
  recorded, \<^verbatim>\<open>processAllFiles\<close> keeps as primary script the first file of the input
  list whose relative path ends in \<open>.js\<close> and contains neither the text
  \<open>node_modules\<close> nor the text \<open>dist\<close>, and as primary stylesheet the first file
  whose relative path ends in \<open>.css\<close>. The choice follows the order of the list, not the
  alphabet: of \<open>b.js\<close> and \<open>a.js\<close> the one that comes first is kept.
\<close>

theorem primary_files_first_match:
  assumes "css st = None" and "js st = None"
  shows "js (processAllFiles st fs) =
       map_option keyOf
         (find (\<lambda>f. endsWith (getRelativePath f) ''.js''
            \<and> \<not> includes_str (getRelativePath f) ''node_modules''
            \<and> \<not> includes_str (getRelativePath f) ''dist'') fs)
    \<and> css (processAllFiles st fs) =
       map_option keyOf (find (\<lambda>f. endsWith (getRelativePath f) ''.css'') fs)
    \<and> js (processAllFiles st [textFile ''App/b.js'' ''b()'', textFile ''App/a.js'' ''a()''])
       = Some (keyOf (textFile ''App/b.js'' ''b()''))
    \<and> js (processAllFiles st [textFile ''App/a.js'' ''a()'', textFile ''App/b.js'' ''b()''])
       = Some (keyOf (textFile ''App/a.js'' ''a()''))"
  using assms
  by (simp add: js_processAllFiles css_processAllFiles relative_path_textFile script_tests)

theorem primary_files_first_match_witness:
  "js (processAllFiles emptyFiles [textFile ''App/b.js'' ''b()'', textFile ''App/a.js'' ''a()''])
     = Some (keyOf (textFile ''App/b.js'' ''b()''))
   \<and> js (processAllFiles emptyFiles [textFile ''App/a.js'' ''a()'', textFile ''App/b.js'' ''b()''])
     = Some (keyOf (textFile ''App/a.js'' ''a()''))"
proof -
  have c: "css emptyFiles = None" and j: "js emptyFiles = None"
    by (simp_all add: emptyFiles_def)
  show ?thesis
    using primary_files_first_match[OF c j, of Nil] by simp
qed

text \<open>
  The claim as it is worded fails: \<open>distance.js\<close> lies in the root of the folder, under
  neither \<open>node_modules\<close> nor \<open>dist\<close>, and comes first, yet the script that is kept is
  \<open>main.js\<close>, because the path of \<open>distance.js\<close> contains the letters \<open>dist\<close>.
\<close>

theorem primary_script_counterexample:
  "js (processAllFiles emptyFiles
        [textFile ''App/distance.js'' ''d()'', textFile ''App/main.js'' ''m()''])
     = Some (keyOf (textFile ''App/main.js'' ''m()''))
   \<and> specPrimaryScript [textFile ''App/distance.js'' ''d()'', textFile ''App/main.js'' ''m()'']
     = Some (textFile ''App/distance.js'' ''d()'')"
proof -
  have j: "js emptyFiles = None"
    by (simp add: emptyFiles_def)
  have u: "\<not> underFolder ''node_modules'' ''distance.js''" "\<not> underFolder ''dist'' ''distance.js''"
    by (simp_all add: underFolder_def)
  show ?thesis
    by (simp add: js_processAllFiles[OF j] specPrimaryScript_def relative_path_textFile script_tests u)
qed

lemma validate_after_processing:
  "validateFolderStructure (processAllFiles st fs) =
     (case rootDocument fs of
        Some g \<Rightarrow> if validateHTML (uploadBytes g) then None else Some InvalidIndex
      | None \<Rightarrow> validateFolderStructure st)"
  by (simp add: validateFolderStructure_def index_processAllFiles keyOf_def split: option.splits)

lemma validate_ignores_header:
  "validateFolderStructure (st\<lparr>uploadedFolder := x, sanitizedName := y, totalSize := z\<rparr>)
     = validateFolderStructure st"
  by (simp add: validateFolderStructure_def)

lemma validate_processing_header:
  "validateFolderStructure
     (processAllFiles (st\<lparr>uploadedFolder := x, sanitizedName := y, totalSize := z\<rparr>) fs)
     = validateFolderStructure (processAllFiles st fs)"
  by (simp only: validate_after_processing validate_ignores_header)

lemma upload_too_large:
  assumes "sum_list (map uploadSize (f # fs)) > maxSize"
  shows "handleFolderUpload a (f # fs) =
     a\<lparr>files := emptyFiles,
       notices := notices a @ [Processing, Failed (FolderTooLarge (sum_list (map uploadSize (f # fs))))],
       nextEnabled := False\<rparr>"
  using assms by (simp add: uploadBody_def Let_def foldl_sizes)

lemma upload_rejected:
  assumes "sum_list (map uploadSize (f # fs)) \<le> maxSize"
    and "validateFolderStructure (processAllFiles (files a) (f # fs)) = Some e"
  shows "handleFolderUpload a (f # fs) =
     a\<lparr>files := emptyFiles,
       notices := notices a @ [Processing]
         @ (if sum_list (map uploadSize (f # fs)) > warnSize
            then [LargeFolderWarning (sum_list (map uploadSize (f # fs))), Pause 1000] else [])
         @ [Failed e],
       nextEnabled := False\<rparr>"
proof -
  have v: "validateFolderStructure (processAllFiles (files a\<lparr>uploadedFolder := x, sanitizedName := y,
      totalSize := z\<rparr>) (f # fs)) = Some e" for x y z
    using assms(2) by (simp only: validate_processing_header)
  show ?thesis
    using assms(1) v by (simp add: uploadBody_def Let_def foldl_sizes)
qed

lemma upload_accepted:
  assumes "sum_list (map uploadSize (f # fs)) \<le> maxSize"
    and "validateFolderStructure (processAllFiles (files a) (f # fs)) = None"
  shows "notices (handleFolderUpload a (f # fs)) =
       notices a @ [Processing]
         @ (if sum_list (map uploadSize (f # fs)) > warnSize
            then [LargeFolderWarning (sum_list (map uploadSize (f # fs))), Pause 1000] else [])
         @ [Loaded (folderOf f) (length (f # fs))]
     \<and> nextEnabled (handleFolderUpload a (f # fs))"
proof -
  have v: "validateFolderStructure (processAllFiles (files a\<lparr>uploadedFolder := x, sanitizedName := y,
      totalSize := z\<rparr>) (f # fs)) = None" for x y z
    using assms(2) by (simp only: validate_processing_header)
  show ?thesis
    using assms(1) v by (simp add: uploadBody_def Let_def foldl_sizes folderOf_def)
qed

lemma find_Some_mem: "find P xs = Some x \<Longrightarrow> x \<in> set xs \<and> P x"
  by (induction xs) (auto split: if_splits)

lemma rootDocument_Some:
  "rootDocument fs = Some g \<Longrightarrow> g \<in> set fs \<and> getRelativePath g = ''index.html''"
  unfolding rootDocument_def
  using find_Some_mem[of "\<lambda>g. getRelativePath g = ''index.html''" "rev fs" g] by simp

lemma demoApp_eq:
  "demoApp = \<lparr>files = demoFiles,
      form = \<lparr>folderNameInput = ''demo'', appIdInput = ''demo-id'', startUrlInput = ''/demo/'',
        scopeInput = ''/demo/'', startUrlUserModified = False, scopeUserModified = False\<rparr>,
      notices = [Processing, Loaded ''Demo'' 1], nextEnabled = True\<rparr>"
proof -
  have r: "rootDocument [demoIndex] = Some demoIndex"
    by (simp add: rootDocument_def demo_relative_path)
  have v: "validateFolderStructure (processAllFiles (files freshApp) [demoIndex]) = None"
    by (simp add: validate_after_processing r demo_valid)
  have s: "sum_list (map uploadSize [demoIndex]) \<le> maxSize"
    by (simp add: demoIndex_def maxSize_def)
  have n: "notices demoApp = [Processing, Loaded ''Demo'' 1]" "nextEnabled demoApp"
    using upload_accepted[OF s v]
    by (simp_all add: demoApp_def freshApp_def warnSize_def demoIndex_def folderOf_def fullPath_def)
  have f: "files demoApp = demoFiles"
    by (simp add: demoApp_def demoFiles_def)
  have fp: "fullPath demoIndex = ''Demo/index.html''"
    by (simp add: fullPath_def demoIndex_def)
  have t: "uploadType demoIndex = ''text/html''" "uploadSize demoIndex = 73"
    "uploadName demoIndex = ''index.html''"
    by (simp_all add: demoIndex_def)
  have fm: "form demoApp = \<lparr>folderNameInput = ''demo'', appIdInput = ''demo-id'',
        startUrlInput = ''/demo/'', scopeInput = ''/demo/'', startUrlUserModified = False,
        scopeUserModified = False\<rparr>"
    by (simp add: demoApp_def freshApp_def uploadBody_def fp t demo_sanitized demo_relative_path
        processAllFiles_def processFile_def Let_def emptyFiles_def maxSize_def warnSize_def
        validateFolderStructure_def demo_valid autoFillConfiguration_def updateUrlFields_def
        emptyForm_def)
  show ?thesis
    using n f fm by (cases demoApp) simp
qed

text \<open>
  Claim C3, as amended. For every list of uploaded files that is not empty, handled from
  a state in which no root document is recorded: if no file has the relative path
  \<open>index.html\<close>, or the files at that path do not pass the test of \<^verbatim>\<open>validateHTML\<close>
  (the text holds neither \<open><!doctype\<close> nor \<open><html\<close>, in either case of the letters), the
  upload fails with an error, and afterwards the file state is reset as a whole: folder
  name, sanitized name, root document, stylesheet, script and icon are null, the file
  list is empty and the total size is 0.
\<close>

theorem missing_root_document_fails:
  assumes "index (files a) = None"
    and "(\<forall>g\<in>set (f # fs). getRelativePath g \<noteq> ''index.html'')
       \<or> (\<forall>g\<in>set (f # fs). getRelativePath g = ''index.html'' \<longrightarrow> \<not> validateHTML (uploadBytes g))"
  shows "files (handleFolderUpload a (f # fs)) =
       \<lparr>uploadedFolder = None, sanitizedName = None, allFiles = [], totalSize = 0,
        index = None, css = None, js = None, icon = None\<rparr>
    \<and> (\<exists>e pre. notices (handleFolderUpload a (f # fs)) = pre @ [Failed e])
    \<and> \<not> nextEnabled (handleFolderUpload a (f # fs))"
proof (cases "sum_list (map uploadSize (f # fs)) > maxSize")
  case True
  have "notices (handleFolderUpload a (f # fs)) =
      (notices a @ [Processing]) @ [Failed (FolderTooLarge (sum_list (map uploadSize (f # fs))))]"
    by (subst upload_too_large[OF True]) simp
  then have "\<exists>e pre. notices (handleFolderUpload a (f # fs)) = pre @ [Failed e]"
    by blast
  then show ?thesis
    by (subst (1 3) upload_too_large[OF True]) (simp add: emptyFiles_def)
next
  case False
  then have le: "sum_list (map uploadSize (f # fs)) \<le> maxSize"
    by simp
  have "\<exists>e. validateFolderStructure (processAllFiles (files a) (f # fs)) = Some e"
  proof (cases "rootDocument (f # fs)")
    case None
    then have "validateFolderStructure (processAllFiles (files a) (f # fs)) = validateFolderStructure (files a)"
      by (simp only: validate_after_processing option.case)
    then show ?thesis
      using assms(1) by (simp add: validateFolderStructure_def)
  next
    case (Some g)
    then have "g \<in> set (f # fs)" "getRelativePath g = ''index.html''"
      using rootDocument_Some by blast+
    then have "\<not> validateHTML (uploadBytes g)"
      using assms(2) by blast
    then have "validateFolderStructure (processAllFiles (files a) (f # fs)) = Some InvalidIndex"
      using Some by (simp only: validate_after_processing option.case if_False)
    then show ?thesis
      by blast
  qed
  then obtain e where e: "validateFolderStructure (processAllFiles (files a) (f # fs)) = Some e"
    by blast
  have "notices (handleFolderUpload a (f # fs)) =
      (notices a @ [Processing]
         @ (if sum_list (map uploadSize (f # fs)) > warnSize
            then [LargeFolderWarning (sum_list (map uploadSize (f # fs))), Pause 1000] else []))
      @ [Failed e]"
    by (subst upload_rejected[OF le e]) simp
  then have "\<exists>e pre. notices (handleFolderUpload a (f # fs)) = pre @ [Failed e]"
    by blast
  then show ?thesis
    by (subst (1 3) upload_rejected[OF le e]) (simp add: emptyFiles_def)
qed

theorem missing_root_document_fails_witness:
  "files (handleFolderUpload freshApp [textFile ''Docs/readme.txt'' ''hello'']) =
       \<lparr>uploadedFolder = None, sanitizedName = None, allFiles = [], totalSize = 0,
        index = None, css = None, js = None, icon = None\<rparr>
    \<and> \<not> nextEnabled (handleFolderUpload freshApp [textFile ''Docs/readme.txt'' ''hello''])"
proof -
  have i: "index (files freshApp) = None"
    by (simp add: freshApp_def emptyFiles_def)
  have h: "(\<forall>g\<in>set [textFile ''Docs/readme.txt'' ''hello'']. getRelativePath g \<noteq> ''index.html'')
       \<or> (\<forall>g\<in>set [textFile ''Docs/readme.txt'' ''hello''].
            getRelativePath g = ''index.html'' \<longrightarrow> \<not> validateHTML (uploadBytes g))"
    by (simp add: relative_path_textFile)
  show ?thesis
    using missing_root_document_fails[OF i h] by blast
qed

text \<open>
  The claim as it is worded fails on the empty list, which has no file at \<open>index.html\<close>:
  the handler returns at once, shows no error and resets nothing. Here the state of a
  loaded demo folder stays as it was.
\<close>

theorem empty_upload_counterexample:
  "handleFolderUpload demoApp [] = demoApp
   \<and> notices (handleFolderUpload demoApp []) = [Processing, Loaded ''Demo'' 1]
   \<and> files (handleFolderUpload demoApp []) \<noteq> emptyFiles
   \<and> nextEnabled (handleFolderUpload demoApp [])"
  by (simp add: demoApp_eq demoFiles_eq emptyFiles_def)

text \<open>
  The amended claim starts from a state without a root document for a reason: the loop
  clears the file list but not the root document of an earlier upload. A folder without
  \<open>index.html\<close>, uploaded after the demo folder, is accepted with the demo's root
  document.
\<close>

lemma stale_root_document_accepted:
  "notices (handleFolderUpload demoApp [textFile ''Docs/readme.txt'' ''hello''])
     = [Processing, Loaded ''Demo'' 1, Processing, Loaded ''Docs'' 1]
   \<and> nextEnabled (handleFolderUpload demoApp [textFile ''Docs/readme.txt'' ''hello''])"
proof -
  have r: "rootDocument [textFile ''Docs/readme.txt'' ''hello''] = None"
    by (simp add: rootDocument_def relative_path_textFile)
  have i: "validateFolderStructure (files demoApp) = None"
    by (simp add: validateFolderStructure_def demoApp_eq demoFiles_eq demo_valid)
  have v: "validateFolderStructure (processAllFiles (files demoApp) [textFile ''Docs/readme.txt'' ''hello'']) = None"
    by (simp only: validate_after_processing r i option.case)
  have s: "sum_list (map uploadSize [textFile ''Docs/readme.txt'' ''hello'']) \<le> maxSize"
    by (simp add: textFile_def maxSize_def)
  have f: "folderOf (textFile ''Docs/readme.txt'' ''hello'') = ''Docs''"
    by (simp add: folderOf_def fullPath_def textFile_def)
  have w: "\<not> sum_list (map uploadSize [textFile ''Docs/readme.txt'' ''hello'']) > warnSize"
    by (simp add: textFile_def warnSize_def)
  have n: "notices demoApp = [Processing, Loaded ''Demo'' 1]"
    by (simp add: demoApp_eq)
  show ?thesis
    using upload_accepted[OF s v] unfolding f n if_not_P[OF w] by simp
qed

lemma allFiles_processFile: "allFiles (processFile st f) = allFiles st @ [infoOf f]"
  by (simp add: processFile_def Let_def infoOf_def)

lemma allFiles_foldl: "allFiles (foldl processFile st fs) = allFiles st @ map infoOf fs"
  by (induction fs arbitrary: st) (simp_all add: allFiles_processFile)

lemma allFiles_processAllFiles: "allFiles (processAllFiles st fs) = map infoOf fs"
  by (simp add: processAllFiles_def allFiles_foldl)

lemma upload_accepted_files:
  assumes "sum_list (map uploadSize (f # fs)) \<le> maxSize"
    and "validateFolderStructure (processAllFiles (files a) (f # fs)) = None"
  shows "allFiles (files (handleFolderUpload a (f # fs))) = map infoOf (f # fs)"
proof -
  have v: "validateFolderStructure (processAllFiles (files a\<lparr>uploadedFolder := x, sanitizedName := y,
      totalSize := z\<rparr>) (f # fs)) = None" for x y z
    using assms(2) by (simp only: validate_processing_header)
  have "allFiles (files (handleFolderUpload a (f # fs))) =
      allFiles (processAllFiles (files a\<lparr>uploadedFolder := Some (folderOf f),
        sanitizedName := Some (sanitizeFolderName (folderOf f)),
        totalSize := sum_list (map uploadSize (f # fs))\<rparr>) (f # fs))"
    using assms(1) v by (simp add: uploadBody_def Let_def foldl_sizes folderOf_def)
  then show ?thesis
    by (simp only: allFiles_processAllFiles)
qed




section \<open>The archive\<close>

lemma fold_upd_other:
  "p \<notin> k ` set es \<Longrightarrow> foldl (\<lambda>acc e. acc(k e \<mapsto> v e)) z es p = z p"
  by (induction es rule: rev_induct) auto

lemma fold_upd_distinct:
  assumes "distinct (map k es)" and "e \<in> set es"
  shows "foldl (\<lambda>acc e. acc(k e \<mapsto> v e)) z es (k e) = Some (v e)"
  using assms
proof (induction es rule: rev_induct)
  case Nil
  then show ?case by simp
next
  case (snoc x es)
  show ?case
  proof (cases "e = x")
    case True
    then show ?thesis by simp
  next
    case False
    then have m: "e \<in> set es" using snoc.prems by simp
    have "k x \<notin> k ` set es" using snoc.prems(1) by simp
    then have "k e \<noteq> k x" using m by (metis imageI)
    then show ?thesis
      using snoc.IH snoc.prems(1) m by simp
  qed
qed

lemma addUserFile_upd:
  "addUserFile st g = (\<lambda>z file. z(path file \<mapsto> storedFor st g file))"
  by (intro ext) (auto simp: addUserFile_def storedFor_def)

lemma user_files_absent:
  "p \<notin> path ` set fs \<Longrightarrow> foldl (addUserFile st g) z fs p = z p"
  unfolding addUserFile_upd by (rule fold_upd_other)

lemma user_files_distinct:
  "distinct (map path fs) \<Longrightarrow> file \<in> set fs \<Longrightarrow>
   foldl (addUserFile st g) z fs (path file) = Some (storedFor st g file)"
  unfolding addUserFile_upd by (rule fold_upd_distinct)

lemma addIcons_fold:
  "addIcons g z = foldl (\<lambda>acc e. acc(''icons/'' @ fst e \<mapsto> Image (snd e))) z (iconEntries g)"
  by (cases "icons g") (simp_all only: addIcons_def iconEntries_def option.case foldl_Nil)

lemma addIcons_other:
  "p \<notin> (\<lambda>entry. ''icons/'' @ fst entry) ` set (iconEntries g) \<Longrightarrow> addIcons g z p = z p"
  unfolding addIcons_fold by (rule fold_upd_other)

lemma addIcons_entry:
  assumes "distinct (map fst (iconEntries g))" and "entry \<in> set (iconEntries g)"
  shows "addIcons g z (''icons/'' @ fst entry) = Some (Image (snd entry))"
proof -
  have "inj_on (\<lambda>e. ''icons/'' @ fst e) (set (iconEntries g))"
    using assms(1) by (auto simp: inj_on_def distinct_map)
  then have d: "distinct (map (\<lambda>e. ''icons/'' @ fst e) (iconEntries g))"
    using assms(1) by (simp add: distinct_map)
  show ?thesis
    unfolding addIcons_fold by (rule fold_upd_distinct[OF d assms(2)])
qed

lemma fixed_names_not_icons:
  "''README.md'' \<notin> (\<lambda>entry. ''icons/'' @ fst entry) ` set es"
  "''manifest.json'' \<notin> (\<lambda>entry. ''icons/'' @ fst entry) ` set es"
  "''sw.js'' \<notin> (\<lambda>entry. ''icons/'' @ fst entry) ` set es"
  "''offline.html'' \<notin> (\<lambda>entry. ''icons/'' @ fst entry) ` set es"
  by auto

lemma downloadAll_readme: "downloadAll st g readme ''README.md'' = Some (Text (Some readme))"
  by (simp add: downloadAll_def Let_def)

lemma downloadAll_not_icon:
  assumes "p \<notin> (\<lambda>entry. ''icons/'' @ fst entry) ` set (iconEntries g)" and "p \<noteq> ''README.md''"
  shows "downloadAll st g readme p =
     (if truthy (offline g) \<and> p = ''offline.html'' then Some (Text (offline g))
      else if p = ''sw.js'' then Some (Text (serviceWorker g))
      else if p = ''manifest.json'' then Some (Text (manifest g))
      else foldl (addUserFile st g) Map.empty (allFiles st) p)"
proof -
  let ?zip3 = "(foldl (addUserFile st g) Map.empty (allFiles st))
      (''manifest.json'' \<mapsto> Text (manifest g), ''sw.js'' \<mapsto> Text (serviceWorker g))"
  let ?zip4 = "if truthy (offline g) then ?zip3(''offline.html'' \<mapsto> Text (offline g)) else ?zip3"
  have "downloadAll st g readme p = addIcons g ?zip4 p"
    using assms(2) by (simp add: downloadAll_def Let_def)
  also have "\<dots> = ?zip4 p"
    using assms(1) by (rule addIcons_other)
  also have "\<dots> = (if truthy (offline g) \<and> p = ''offline.html'' then Some (Text (offline g))
      else if p = ''sw.js'' then Some (Text (serviceWorker g))
      else if p = ''manifest.json'' then Some (Text (manifest g))
      else foldl (addUserFile st g) Map.empty (allFiles st) p)"
    by simp
  finally show ?thesis .
qed

lemma downloadAll_icon:
  assumes "distinct (map fst (iconEntries g))" and "entry \<in> set (iconEntries g)"
  shows "downloadAll st g readme (''icons/'' @ fst entry) = Some (Image (snd entry))"
proof -
  let ?zip3 = "(foldl (addUserFile st g) Map.empty (allFiles st))
      (''manifest.json'' \<mapsto> Text (manifest g), ''sw.js'' \<mapsto> Text (serviceWorker g))"
  let ?zip4 = "if truthy (offline g) then ?zip3(''offline.html'' \<mapsto> Text (offline g)) else ?zip3"
  have "downloadAll st g readme (''icons/'' @ fst entry) = addIcons g ?zip4 (''icons/'' @ fst entry)"
    by (simp add: downloadAll_def Let_def)
  also have "\<dots> = Some (Image (snd entry))"
    using assms by (rule addIcons_entry)
  finally show ?thesis .
qed

text \<open>
  Claim C8, as amended. The user's files have pairwise different paths and the generated
  icons pairwise different names. Then the archive of \<^verbatim>\<open>downloadAll\<close> holds every
  user file whose path is not the path of a generated artifact (that is \<open>manifest.json\<close>,
  \<open>sw.js\<close>, \<open>README.md\<close>, \<open>offline.html\<close> when an offline page was generated, and the
  generated icons under \<open>icons/\<close>) at its own path: \<open>index.html\<close> with the injected HTML,
  the primary script with the enhanced script, every other file with its original bytes.
  It holds the manifest at \<open>manifest.json\<close>, the service worker at \<open>sw.js\<close>, every
  generated icon under \<open>icons/\<close> and the README at \<open>README.md\<close>. It holds the generated
  offline page at \<open>offline.html\<close> when one was generated; when none was, there is an entry
  \<open>offline.html\<close> only if the folder has a file of that name.
\<close>

theorem archive_contents:
  assumes "distinct (map path (allFiles st))" and "distinct (map fst (iconEntries g))"
  shows "(\<forall>file\<in>set (allFiles st). path file \<notin> generatedPaths g \<longrightarrow>
        downloadAll st g readme (path file) =
          Some (if path file = ''index.html'' then Text (html g)
                else if (\<exists>j. js st = Some j \<and> path file = keyPath j) then Text (enhancedJs g)
                else Original (blob file)))
    \<and> downloadAll st g readme ''manifest.json'' = Some (Text (manifest g))
    \<and> downloadAll st g readme ''sw.js'' = Some (Text (serviceWorker g))
    \<and> (\<forall>entry\<in>set (iconEntries g).
          downloadAll st g readme (''icons/'' @ fst entry) = Some (Image (snd entry)))
    \<and> downloadAll st g readme ''README.md'' = Some (Text (Some readme))
    \<and> (truthy (offline g) \<longrightarrow> downloadAll st g readme ''offline.html'' = Some (Text (offline g)))
    \<and> (\<not> truthy (offline g) \<longrightarrow>
          (downloadAll st g readme ''offline.html'' \<noteq> None
             \<longleftrightarrow> ''offline.html'' \<in> path ` set (allFiles st)))"
proof -
  have user: "downloadAll st g readme (path fl) =
          Some (if path fl = ''index.html'' then Text (html g)
                else if (\<exists>j. js st = Some j \<and> path fl = keyPath j) then Text (enhancedJs g)
                else Original (blob fl))"
    if f: "fl \<in> set (allFiles st)" and n: "path fl \<notin> generatedPaths g" for fl
  proof -
    have a: "path fl \<notin> (\<lambda>entry. ''icons/'' @ fst entry) ` set (iconEntries g)"
      and b: "path fl \<noteq> ''README.md''" and c: "path fl \<noteq> ''sw.js''"
      and d: "path fl \<noteq> ''manifest.json''"
      and e: "\<not> (truthy (offline g) \<and> path fl = ''offline.html'')"
      using n unfolding generatedPaths_def by (auto split: if_splits)
    have "downloadAll st g readme (path fl)
        = foldl (addUserFile st g) Map.empty (allFiles st) (path fl)"
      using downloadAll_not_icon[where st = st and readme = readme, OF a b] c d e by presburger
    also have "\<dots> = Some (storedFor st g fl)"
      using assms(1) f by (rule user_files_distinct)
    also have "storedFor st g fl =
        (if path fl = ''index.html'' then Text (html g)
         else if (\<exists>j. js st = Some j \<and> path fl = keyPath j) then Text (enhancedJs g)
         else Original (blob fl))"
      by (cases "js st") (simp_all add: storedFor_def)
    finally show ?thesis .
  qed
  have m: "downloadAll st g readme ''manifest.json'' = Some (Text (manifest g))"
    using downloadAll_not_icon[where p = "''manifest.json''" and g = g and st = st and readme = readme,
        OF fixed_names_not_icons(2)] by simp
  have s: "downloadAll st g readme ''sw.js'' = Some (Text (serviceWorker g))"
    using downloadAll_not_icon[where p = "''sw.js''" and g = g and st = st and readme = readme,
        OF fixed_names_not_icons(3)] by simp
  have i: "\<forall>entry\<in>set (iconEntries g).
          downloadAll st g readme (''icons/'' @ fst entry) = Some (Image (snd entry))"
    using downloadAll_icon[OF assms(2)] by blast
  have o: "downloadAll st g readme ''offline.html'' =
      (if truthy (offline g) then Some (Text (offline g))
       else foldl (addUserFile st g) Map.empty (allFiles st) ''offline.html'')"
    using downloadAll_not_icon[where p = "''offline.html''" and g = g and st = st and readme = readme,
        OF fixed_names_not_icons(4)] by simp
  have o1: "truthy (offline g) \<longrightarrow> downloadAll st g readme ''offline.html'' = Some (Text (offline g))"
    using o by simp
  have o2: "\<not> truthy (offline g) \<longrightarrow>
          (downloadAll st g readme ''offline.html'' \<noteq> None
             \<longleftrightarrow> ''offline.html'' \<in> path ` set (allFiles st))"
  proof
    assume nt: "\<not> truthy (offline g)"
    show "downloadAll st g readme ''offline.html'' \<noteq> None
             \<longleftrightarrow> ''offline.html'' \<in> path ` set (allFiles st)"
    proof (cases "''offline.html'' \<in> path ` set (allFiles st)")
      case True
      then obtain fl where "fl \<in> set (allFiles st)" "path fl = ''offline.html''"
        by auto
      then have "foldl (addUserFile st g) Map.empty (allFiles st) ''offline.html''
          = Some (storedFor st g fl)"
        using user_files_distinct[OF assms(1), of fl st g Map.empty] by simp
      then show ?thesis
        using o nt True by simp
    next
      case False
      then have "foldl (addUserFile st g) Map.empty (allFiles st) ''offline.html'' = None"
        using user_files_absent[of "''offline.html''" "allFiles st" st g Map.empty] by simp
      then show ?thesis
        using o nt False by simp
    qed
  qed
  show ?thesis
    using user m s i downloadAll_readme[of st g readme] o1 o2 by blast
qed

lemma demo_icon_names:
  "map fst (iconEntries (demoGenerated st)) =
     [''icon-72x72.png'', ''icon-96x96.png'', ''icon-128x128.png'', ''icon-144x144.png'',
      ''icon-152x152.png'', ''icon-192x192.png'', ''icon-384x384.png'', ''icon-512x512.png'']"
  by (simp add: iconEntries_def demoGenerated_def iconSizes_def showNat_iconSizes)

lemma demo_icon_entries:
  "iconEntries (demoGenerated st) =
     [(''icon-72x72.png'', ''PNG''), (''icon-96x96.png'', ''PNG''), (''icon-128x128.png'', ''PNG''),
      (''icon-144x144.png'', ''PNG''), (''icon-152x152.png'', ''PNG''), (''icon-192x192.png'', ''PNG''),
      (''icon-384x384.png'', ''PNG''), (''icon-512x512.png'', ''PNG'')]"
  by (simp add: iconEntries_def demoGenerated_def iconSizes_def showNat_iconSizes)

theorem archive_contents_witness:
  "downloadAll demoFiles (demoGenerated demoFiles) ''# Demo'' ''index.html''
     = Some (Text (injectPWACode demoConfig demoFiles))
   \<and> downloadAll demoFiles (demoGenerated demoFiles) ''# Demo'' ''icons/icon-192x192.png''
     = Some (Image ''PNG'')
   \<and> downloadAll demoFiles (demoGenerated demoFiles) ''# Demo'' ''offline.html'' = None"
proof -
  let ?g = "demoGenerated demoFiles"
  let ?ix = "\<lparr>path = ''index.html'', blob = demoIndex, mimeType = ''text/html'',
      sizeBytes = 73, fileName = ''index.html''\<rparr>"
  have fs: "allFiles demoFiles = [?ix]"
    by (simp add: demoFiles_eq)
  have d1: "distinct (map path (allFiles demoFiles))"
    by (simp add: fs)
  have d2: "distinct (map fst (iconEntries ?g))"
    by (simp add: demo_icon_names)
  have t: "\<not> truthy (offline ?g)"
    by (simp add: truthy_def demoGenerated_def)
  have h: "html ?g = injectPWACode demoConfig demoFiles"
    by (simp add: demoGenerated_def)
  have gp: "path ?ix \<notin> generatedPaths ?g"
    using t by (simp add: generatedPaths_def demo_icon_entries)
  have mem: "?ix \<in> set (allFiles demoFiles)"
    by (simp add: fs)
  have e: "(''icon-192x192.png'', ''PNG'') \<in> set (iconEntries ?g)"
    by (simp add: demo_icon_entries)
  have no: "''offline.html'' \<notin> path ` set (allFiles demoFiles)"
    by (simp add: fs)
  note T = archive_contents[OF d1 d2, of "''# Demo''"]
  have a: "downloadAll demoFiles ?g ''# Demo'' (path ?ix) =
          Some (if path ?ix = ''index.html'' then Text (html ?g)
                else if (\<exists>j. js demoFiles = Some j \<and> path ?ix = keyPath j) then Text (enhancedJs ?g)
                else Original (blob ?ix))"
    using T[THEN conjunct1, THEN bspec, OF mem, THEN mp, OF gp] .
  have b: "downloadAll demoFiles ?g ''# Demo'' (''icons/'' @ fst (''icon-192x192.png'', ''PNG''))
      = Some (Image (snd (''icon-192x192.png'', ''PNG'')))"
    using T[THEN conjunct2, THEN conjunct2, THEN conjunct2, THEN conjunct1, THEN bspec, OF e] .
  have c: "downloadAll demoFiles ?g ''# Demo'' ''offline.html'' = None"
    using T[THEN conjunct2, THEN conjunct2, THEN conjunct2, THEN conjunct2, THEN conjunct2,
        THEN conjunct2, THEN mp, OF t] no by simp
  have a': "downloadAll demoFiles ?g ''# Demo'' ''index.html'' = Some (Text (html ?g))"
    using a by simp
  have b': "downloadAll demoFiles ?g ''# Demo'' ''icons/icon-192x192.png'' = Some (Image ''PNG'')"
    using b by simp
  show ?thesis
    using a' b' c unfolding h by (intro conjI)
qed

text \<open>
  The claim as it is worded fails when a user file has the path of a generated artifact:
  the demo folder with a \<open>manifest.json\<close> of its own (the text \<open>{}\<close>) gets the generated
  manifest at that path, not the user's bytes.
\<close>

theorem archive_overwrites_counterexample:
  "map path (allFiles demoWithManifest) = [''index.html'', ''manifest.json'']
   \<and> map (\<lambda>file. uploadBytes (blob file)) (allFiles demoWithManifest)
       = [uploadBytes demoIndex, ''{}'']
   \<and> downloadAll demoWithManifest (demoGenerated demoWithManifest) ''# Demo'' ''manifest.json''
       = Some (Text (Some (generateManifest demoConfig)))"
proof -
  have rp: "getRelativePath (textFile ''Demo/manifest.json'' ''{}'') = ''manifest.json''"
    by (simp add: getRelativePath_def fullPath_def textFile_def)
  have r: "rootDocument [demoIndex, textFile ''Demo/manifest.json'' ''{}''] = Some demoIndex"
    by (simp add: rootDocument_def demo_relative_path rp)
  have v: "validateFolderStructure
      (processAllFiles (files freshApp) [demoIndex, textFile ''Demo/manifest.json'' ''{}'']) = None"
    by (simp only: validate_after_processing r option.case demo_valid if_True)
  have le: "sum_list (map uploadSize [demoIndex, textFile ''Demo/manifest.json'' ''{}'']) \<le> maxSize"
    by (simp add: demoIndex_def textFile_def maxSize_def)
  have fs: "allFiles demoWithManifest = [infoOf demoIndex, infoOf (textFile ''Demo/manifest.json'' ''{}'')]"
    unfolding demoWithManifest_def using upload_accepted_files[OF le v] by simp
  have p2: "path (infoOf (textFile ''Demo/manifest.json'' ''{}'')) = ''manifest.json''"
    by (simp add: infoOf_def rp)
  have p1: "path (infoOf demoIndex) = ''index.html''"
    by (simp add: infoOf_def demo_relative_path)
  have b1: "blob (infoOf u) = u" for u
    by (simp add: infoOf_def)
  have a: "map path (allFiles demoWithManifest) = [''index.html'', ''manifest.json'']"
    by (simp add: fs p1 p2)
  have b: "map (\<lambda>file. uploadBytes (blob file)) (allFiles demoWithManifest)
       = [uploadBytes demoIndex, ''{}'']"
    by (simp add: fs b1 textFile_def)
  have m: "manifest (demoGenerated demoWithManifest) = Some (generateManifest demoConfig)"
    by (simp add: demoGenerated_def)
  have c: "downloadAll demoWithManifest (demoGenerated demoWithManifest) ''# Demo'' ''manifest.json''
       = Some (Text (Some (generateManifest demoConfig)))"
    using downloadAll_not_icon[where p = "''manifest.json''" and g = "demoGenerated demoWithManifest"
        and st = demoWithManifest and readme = "''# Demo''", OF fixed_names_not_icons(2)]
    by (simp add: m truthy_def demoGenerated_def)
  show ?thesis
    using a b c by (intro conjI)
qed

section \<open>The fetch-handling block of the service worker\<close>

lemma prefix_if: "prefix (x # xs) (y # ys) = (if x = y then prefix xs ys else False)"
  by simp

lemma template_lines_safe:
  "list_all (startSafe respondCall) cacheFirstLinesOffline"
  "list_all (startSafe respondCall) cacheFirstLines1"
  "list_all (startSafe respondCall) cacheFirstLines2"
  "list_all (startSafe respondCall) networkFirstLinesOffline"
  "list_all (startSafe respondCall) networkFirstLines1"
  "list_all (startSafe respondCall) networkFirstLines2"
  "list_all (startSafe respondCall) staleWhileRevalidateLinesOffline"
  "list_all (startSafe respondCall) staleWhileRevalidateLines1"
  "list_all (startSafe respondCall) staleWhileRevalidateLines2"
  "list_all (startSafe respondCall) notificationLines1"
  "list_all (startSafe respondCall) notificationLines2"
  "list_all (startSafe respondCall) notificationLines3"
  "list_all (startSafe respondCall) notificationLines4"
  "list_all (startSafe respondCall) notificationLines5"
  "list_all (startSafe respondCall) notificationLines6"
  "list_all (startSafe respondCall) serviceWorkerLines1"
  "list_all (startSafe respondCall) serviceWorkerLines2"
  "list_all (startSafe respondCall) serviceWorkerLines3"
  "list_all (startSafe respondCall) serviceWorkerLines4"
  "list_all (startSafe respondCall) serviceWorkerLines5"
  "list_all (startSafe respondCall) serviceWorkerLines6"
  "list_all (startSafe respondCall) serviceWorkerLines7"
  "list_all (startSafe respondCall) serviceWorkerLines8"
  "list_all (startSafe respondCall) serviceWorkerLines9"
  "list_all (startSafe respondCall) serviceWorkerLines10"
  "list_all (startSafe respondCall) serviceWorkerLines11"
  "list_all (startSafe respondCall) serviceWorkerLines12"
  "list_all (startSafe respondCall) serviceWorkerLines13"
  "list_all (startSafe respondCall) serviceWorkerLines14"
  "list_all (startSafe respondCall) serviceWorkerLines15"
  by (simp_all add: startSafe_def respondCall_def prefix_if
      cacheFirstLinesOffline_def cacheFirstLines1_def cacheFirstLines2_def
      networkFirstLinesOffline_def networkFirstLines1_def networkFirstLines2_def
      staleWhileRevalidateLinesOffline_def staleWhileRevalidateLines1_def staleWhileRevalidateLines2_def
      notificationLines1_def notificationLines2_def notificationLines3_def
      notificationLines4_def notificationLines5_def notificationLines6_def
      serviceWorkerLines1_def serviceWorkerLines2_def serviceWorkerLines3_def
      serviceWorkerLines4_def serviceWorkerLines5_def serviceWorkerLines6_def
      serviceWorkerLines7_def serviceWorkerLines8_def serviceWorkerLines9_def
      serviceWorkerLines10_def serviceWorkerLines11_def serviceWorkerLines12_def
      serviceWorkerLines13_def serviceWorkerLines14_def serviceWorkerLines15_def
      del: Cons_prefix_Cons)

lemma template_lines_count:
  "sum_list (map (occurrences respondCall) cacheFirstLinesOffline) = 0"
  "sum_list (map (occurrences respondCall) cacheFirstLines1) = 1"
  "sum_list (map (occurrences respondCall) cacheFirstLines2) = 0"
  "sum_list (map (occurrences respondCall) networkFirstLinesOffline) = 0"
  "sum_list (map (occurrences respondCall) networkFirstLines1) = 1"
  "sum_list (map (occurrences respondCall) networkFirstLines2) = 0"
  "sum_list (map (occurrences respondCall) staleWhileRevalidateLinesOffline) = 0"
  "sum_list (map (occurrences respondCall) staleWhileRevalidateLines1) = 1"
  "sum_list (map (occurrences respondCall) staleWhileRevalidateLines2) = 0"
  "sum_list (map (occurrences respondCall) notificationLines1) = 0"
  "sum_list (map (occurrences respondCall) notificationLines2) = 0"
  "sum_list (map (occurrences respondCall) notificationLines3) = 0"
  "sum_list (map (occurrences respondCall) notificationLines4) = 0"
  "sum_list (map (occurrences respondCall) notificationLines5) = 0"
  "sum_list (map (occurrences respondCall) notificationLines6) = 0"
  "sum_list (map (occurrences respondCall) serviceWorkerLines1) = 0"
  "sum_list (map (occurrences respondCall) serviceWorkerLines2) = 0"
  "sum_list (map (occurrences respondCall) serviceWorkerLines3) = 0"
  "sum_list (map (occurrences respondCall) serviceWorkerLines4) = 0"
  "sum_list (map (occurrences respondCall) serviceWorkerLines5) = 0"
  "sum_list (map (occurrences respondCall) serviceWorkerLines6) = 0"
  "sum_list (map (occurrences respondCall) serviceWorkerLines7) = 0"
  "sum_list (map (occurrences respondCall) serviceWorkerLines8) = 0"
  "sum_list (map (occurrences respondCall) serviceWorkerLines9) = 0"
  "sum_list (map (occurrences respondCall) serviceWorkerLines10) = 0"
  "sum_list (map (occurrences respondCall) serviceWorkerLines11) = 0"
  "sum_list (map (occurrences respondCall) serviceWorkerLines12) = 0"
  "sum_list (map (occurrences respondCall) serviceWorkerLines13) = 0"
  "sum_list (map (occurrences respondCall) serviceWorkerLines14) = 0"
  "sum_list (map (occurrences respondCall) serviceWorkerLines15) = 0"
  by (simp_all add: respondCall_def prefix_if
      cacheFirstLinesOffline_def cacheFirstLines1_def cacheFirstLines2_def
      networkFirstLinesOffline_def networkFirstLines1_def networkFirstLines2_def
      staleWhileRevalidateLinesOffline_def staleWhileRevalidateLines1_def staleWhileRevalidateLines2_def
      notificationLines1_def notificationLines2_def notificationLines3_def
      notificationLines4_def notificationLines5_def notificationLines6_def
      serviceWorkerLines1_def serviceWorkerLines2_def serviceWorkerLines3_def
      serviceWorkerLines4_def serviceWorkerLines5_def serviceWorkerLines6_def
      serviceWorkerLines7_def serviceWorkerLines8_def serviceWorkerLines9_def
      serviceWorkerLines10_def serviceWorkerLines11_def serviceWorkerLines12_def
      serviceWorkerLines13_def serviceWorkerLines14_def serviceWorkerLines15_def
      del: Cons_prefix_Cons)

lemma noTailStarts_iff:
  "noTailStarts cs k \<longleftrightarrow> (\<forall>t. suffix t cs \<and> t \<noteq> [] \<longrightarrow> \<not> prefix t k)"
  by (induction cs) (auto simp: suffix_Cons)

lemma occurrences_absent:
  assumes "m \<noteq> []" and "last m \<notin> set x"
  shows "occurrences m x = 0"
  using assms(2)
proof (induction x)
  case Nil
  then show ?case by simp
next
  case (Cons c cs)
  have "\<not> prefix m (c # cs)"
  proof
    assume "prefix m (c # cs)"
    then have "set m \<subseteq> set (c # cs)" by (rule set_mono_prefix)
    then show False using assms(1) Cons.prems last_in_set by blast
  qed
  then show ?case using Cons by simp
qed

lemma prefix_into_appended:
  assumes "prefix m (ys @ x)" and "\<not> prefix m ys"
  shows "\<exists>us. us \<noteq> [] \<and> m = ys @ us \<and> prefix us x"
proof -
  from assms obtain us where u: "m = ys @ us" "prefix us x"
    unfolding prefix_append by blast
  then have "us \<noteq> []" using assms(2) by auto
  then show ?thesis using u by blast
qed

lemma occurrences_append_plain:
  assumes "m \<noteq> []" and "last m \<notin> set x"
  shows "occurrences m (a @ x) = occurrences m a"
proof (induction a)
  case Nil
  then show ?case using occurrences_absent[OF assms] by simp
next
  case (Cons c cs)
  have "prefix m ((c # cs) @ x) \<longleftrightarrow> prefix m (c # cs)"
  proof
    assume p: "prefix m ((c # cs) @ x)"
    show "prefix m (c # cs)"
    proof (rule ccontr)
      assume "\<not> prefix m (c # cs)"
      then obtain us where u: "us \<noteq> []" "m = (c # cs) @ us" "prefix us x"
        using prefix_into_appended[OF p] by blast
      then have "last m = last us" by simp
      moreover have "last us \<in> set x"
        using u(1) u(3) set_mono_prefix last_in_set by blast
      ultimately show False using assms(2) by simp
    qed
  next
    assume "prefix m (c # cs)"
    then show "prefix m ((c # cs) @ x)" by (rule prefix_prefix)
  qed
  then show ?case using Cons by simp
qed

lemma occurrences_append_safe:
  assumes "startSafe m k"
  shows "occurrences m (a @ k) = occurrences m a + occurrences m k"
proof (induction a)
  case Nil
  then show ?case by simp
next
  case (Cons c cs)
  have "prefix m ((c # cs) @ k) \<longleftrightarrow> prefix m (c # cs)"
  proof
    assume p: "prefix m ((c # cs) @ k)"
    show "prefix m (c # cs)"
    proof (rule ccontr)
      assume "\<not> prefix m (c # cs)"
      then obtain us where u: "us \<noteq> []" "m = (c # cs) @ us" "prefix us k"
        using prefix_into_appended[OF p] by blast
      have "suffix us (tl m)" using u(2) by (simp add: suffix_def)
      then have "\<not> prefix us k"
        using assms u(1) unfolding startSafe_def noTailStarts_iff by blast
      then show False using u(3) by simp
    qed
  next
    assume "prefix m (c # cs)"
    then show "prefix m ((c # cs) @ k)" by (rule prefix_prefix)
  qed
  then show ?case using Cons by simp
qed

lemma occurrences_concat:
  assumes "m \<noteq> []" and "segmentsSafe m ss"
  shows "occurrences m (concat ss) = sum_list (map (occurrences m) ss)"
  using assms(2)
proof (induction ss rule: rev_induct)
  case Nil
  then show ?case by simp
next
  case (snoc s ss)
  have ih: "occurrences m (concat ss) = sum_list (map (occurrences m) ss)"
    using snoc by (simp add: segmentsSafe_def)
  have "occurrences m (concat ss @ s) = occurrences m (concat ss) + occurrences m s"
  proof (cases "startSafe m s")
    case True
    then show ?thesis by (rule occurrences_append_safe)
  next
    case False
    then have l: "last m \<notin> set s" using snoc.prems by (simp add: segmentsSafe_def)
    show ?thesis
      using occurrences_append_plain[OF assms(1) l] occurrences_absent[OF assms(1) l] by simp
  qed
  then show ?case using ih by simp
qed

lemma segmentsSafe_append:
  "segmentsSafe m (xs @ ys) \<longleftrightarrow> segmentsSafe m xs \<and> segmentsSafe m ys"
  by (simp add: segmentsSafe_def)

lemma segmentsSafe_lines: "list_all (startSafe m) ls \<Longrightarrow> segmentsSafe m ls"
  by (simp add: segmentsSafe_def list_all_iff)

lemma segmentsSafe_plain: "last m \<notin> set s \<Longrightarrow> segmentsSafe m [s]"
  by (simp add: segmentsSafe_def)

lemma segmentsSafe_single: "startSafe m s \<or> last m \<notin> set s \<Longrightarrow> segmentsSafe m [s]"
  by (simp add: segmentsSafe_def)

lemma occurrences_at_least_one:
  assumes "m \<noteq> []"
  shows "occurrences m (a @ m @ b) \<ge> 1"
proof (induction a)
  case Nil
  obtain c cs where "m @ b = c # cs" using assms by (cases m) auto
  moreover have "prefix m (m @ b)" by simp
  ultimately show ?case by simp
next
  case (Cons c cs)
  then show ?case by simp
qed

lemma unique_place:
  assumes "m \<noteq> []" and "occurrences m t = 1" and "t = a @ m @ b" and "t = a' @ m @ b'"
  shows "a = a'"
  using assms(2-)
proof (induction a arbitrary: a' t)
  case Nil
  show ?case
  proof (cases a')
    case Nil
    then show ?thesis by simp
  next
    case (Cons c cs)
    then have t: "t = c # (cs @ m @ b')" using Nil.prems by simp
    have "prefix m t" using Nil.prems by simp
    then have "occurrences m t = 1 + occurrences m (cs @ m @ b')"
      unfolding t by simp
    then show ?thesis
      using occurrences_at_least_one[OF assms(1), of cs b'] Nil.prems(1) by simp
  qed
next
  case (Cons c cs)
  show ?case
  proof (cases a')
    case Nil
    have t: "t = c # (cs @ m @ b)" using Cons.prems by simp
    have "t = m @ b'" using Cons.prems(3) Nil by simp
    then have "prefix m t" by simp
    then have "occurrences m t = 1 + occurrences m (cs @ m @ b)"
      unfolding t by simp
    then show ?thesis
      using occurrences_at_least_one[OF assms(1), of cs b] Cons.prems(1) by simp
  next
    case (Cons d ds)
    have t: "t = c # (cs @ m @ b)" using Cons.prems by simp
    have e: "c = d" "cs @ m @ b = ds @ m @ b'"
      using Cons.prems Cons by simp_all
    have "occurrences m (cs @ m @ b) \<ge> 1"
      by (rule occurrences_at_least_one[OF assms(1)])
    moreover have "occurrences m t = (if prefix m t then 1 else 0) + occurrences m (cs @ m @ b)"
      unfolding t by simp
    ultimately have "occurrences m (cs @ m @ b) = 1"
      using Cons.prems(1) by (simp split: if_splits)
    then have "cs = ds"
      using Cons.IH[of "cs @ m @ b" ds] e(2) by simp
    then show ?thesis using e(1) Cons by simp
  qed
qed

lemma other_block_absent:
  assumes "m \<noteq> []" and "occurrences m t = 1" and "t = a @ m @ x @ r"
    and "other = a' @ m @ x' @ r'" and "\<And>z. \<not> prefix x' (x @ z)"
  shows "\<not> sublist other t"
proof
  assume "sublist other t"
  then obtain u v where "t = u @ other @ v"
    unfolding sublist_def by blast
  then have t2: "t = (u @ a') @ m @ (x' @ r' @ v)"
    using assms(4) by simp
  have t1: "t = a @ m @ (x @ r)"
    using assms(3) by simp
  have "a = u @ a'"
    by (rule unique_place[OF assms(1) assms(2) t1 t2])
  then have "x @ r = x' @ r' @ v"
    using t1 t2 by simp
  then have "prefix x' (x @ r)"
    by simp
  then show False
    using assms(5) by blast
qed

lemma respondCall_last: "last respondCall = CHR ''(''" "respondCall \<noteq> []"
  by (simp_all add: respondCall_def)

lemma concat_if: "concat (if b then xs else []) = (if b then concat xs else [])"
  by simp

lemma cacheFirst_segments: "generateCacheFirstStrategy cfg = concat (cacheFirstSegments cfg)"
  by (simp add: generateCacheFirstStrategy_def cacheFirstSegments_def cacheFirstText1_def
      cacheFirstText2_def cacheFirstTextOffline_def)

lemma networkFirst_segments: "generateNetworkFirstStrategy cfg = concat (networkFirstSegments cfg)"
  by (simp add: generateNetworkFirstStrategy_def networkFirstSegments_def networkFirstText1_def
      networkFirstText2_def networkFirstTextOffline_def)

lemma staleWhileRevalidate_segments:
  "generateStaleWhileRevalidateStrategy cfg = concat (staleWhileRevalidateSegments cfg)"
  by (simp add: generateStaleWhileRevalidateStrategy_def staleWhileRevalidateSegments_def
      staleWhileRevalidateText1_def staleWhileRevalidateText2_def
      staleWhileRevalidateTextOffline_def)

lemma notification_segments: "generateNotificationHandlers cfg = concat (notificationSegments cfg)"
  by (simp add: generateNotificationHandlers_def notificationSegments_def notificationText1_def
      notificationText2_def notificationText3_def notificationText4_def notificationText5_def
      notificationText6_def)

lemma serviceWorker_segments:
  "generateServiceWorker cfg st =
     concat (preSegments cfg st) @ cacheStrategies cfg @ concat (postSegments cfg st)"
  by (simp add: generateServiceWorker_def preSegments_def postSegments_def notification_segments
      serviceWorkerText1_def serviceWorkerText2_def serviceWorkerText3_def serviceWorkerText4_def
      serviceWorkerText5_def serviceWorkerText6_def serviceWorkerText7_def serviceWorkerText8_def
      serviceWorkerText9_def serviceWorkerText10_def serviceWorkerText11_def
      serviceWorkerText12_def serviceWorkerText13_def serviceWorkerText14_def
      serviceWorkerText15_def del: stringify.simps)

lemma strategy_segments_safe:
  "segmentsSafe respondCall (cacheFirstSegments cfg)"
  "segmentsSafe respondCall (networkFirstSegments cfg)"
  "segmentsSafe respondCall (staleWhileRevalidateSegments cfg)"
  by (simp_all add: cacheFirstSegments_def networkFirstSegments_def
      staleWhileRevalidateSegments_def segmentsSafe_append segmentsSafe_lines
      template_lines_safe)

lemma strategy_segments_count:
  "sum_list (map (occurrences respondCall) (cacheFirstSegments cfg)) = 1"
  "sum_list (map (occurrences respondCall) (networkFirstSegments cfg)) = 1"
  "sum_list (map (occurrences respondCall) (staleWhileRevalidateSegments cfg)) = 1"
  by (cases "enableOffline cfg";
      simp only: cacheFirstSegments_def networkFirstSegments_def
        staleWhileRevalidateSegments_def template_lines_count if_True if_False map_append
        sum_list_append list.map sum_list.Nil add_0_right)+

text \<open>Every strategy body calls \<open>event.respondWith(\<close> exactly once.\<close>

lemma strategy_one_call:
  "occurrences respondCall (generateCacheFirstStrategy cfg) = 1"
  "occurrences respondCall (generateNetworkFirstStrategy cfg) = 1"
  "occurrences respondCall (generateStaleWhileRevalidateStrategy cfg) = 1"
  by (simp_all only: cacheFirst_segments networkFirst_segments staleWhileRevalidate_segments
      occurrences_concat[OF respondCall_last(2) strategy_segments_safe(1)]
      occurrences_concat[OF respondCall_last(2) strategy_segments_safe(2)]
      occurrences_concat[OF respondCall_last(2) strategy_segments_safe(3)]
      strategy_segments_count)

subsection \<open>Values without an opening parenthesis\<close>


lemma paren_free_showNat: "CHR ''('' \<notin> set (showNat n)"
proof
  assume "CHR ''('' \<in> set (showNat n)"
  then have "CHR ''('' \<in> set digitChars"
    by (rule subsetD[OF set_showNat])
  then show False
    by (simp add: digitChars_def)
qed

lemma paren_free_hex: "k < 16 \<Longrightarrow> CHR ''('' \<noteq> hexDigits ! k"
proof -
  assume k: "k < 16"
  have "length hexDigits = 16"
    by (simp add: hexDigits_def)
  then have "hexDigits ! k \<in> set hexDigits"
    using k by (intro nth_mem) simp
  moreover have "CHR ''('' \<notin> set hexDigits"
    by (simp add: hexDigits_def)
  ultimately show ?thesis
    by auto
qed

lemma paren_free_escape: "CHR ''('' \<noteq> c \<Longrightarrow> CHR ''('' \<notin> set (escapeJSON c)"
proof -
  assume c: "CHR ''('' \<noteq> c"
  have d: "(of_char c :: nat) < 32 \<Longrightarrow> (of_char c :: nat) div 16 < 16"
    by simp
  have m: "(of_char c :: nat) mod 16 < 16"
    by simp
  show ?thesis
    using c paren_free_hex[OF m] paren_free_hex[OF d] by (simp add: escapeJSON_def)
qed

lemma paren_free_quote: "CHR ''('' \<notin> set s \<Longrightarrow> CHR ''('' \<notin> set (quoteJSON s)"
proof -
  assume s: "CHR ''('' \<notin> set s"
  have "CHR ''('' \<notin> set (concat (map escapeJSON s))"
    using s by (induction s) (simp_all add: paren_free_escape)
  then show ?thesis
    by (simp add: quoteJSON_def)
qed

lemma join_with_avoids:
  "\<forall>p\<in>set ps. c \<notin> set p \<Longrightarrow> c \<notin> set sep \<Longrightarrow> c \<notin> set (join_with sep ps)"
  by (induction sep ps rule: join_with.induct) auto

lemma paren_free_items:
  assumes "\<forall>u\<in>set us. CHR ''('' \<notin> set u"
  shows "\<forall>p\<in>set (map (\<lambda>x. spaces n @ stringify n x) (map JStr us)). CHR ''('' \<notin> set p"
  using assms by (auto simp: spaces_def paren_free_quote)

lemma paren_free_array:
  assumes "\<forall>u\<in>set us. CHR ''('' \<notin> set u"
  shows "CHR ''('' \<notin> set (stringify 0 (JArr (map JStr us)))"
proof -
  have "CHR ''('' \<notin> set (join_with ('','' @ [CHR 0x0A])
      (map (\<lambda>x. spaces (0 + 2) @ stringify (0 + 2) x) (map JStr us)))"
    by (rule join_with_avoids[OF paren_free_items[OF assms]]) simp
  then show ?thesis
    by (simp add: spaces_def)
qed

lemma paren_free_urls:
  assumes "CHR ''('' \<notin> set (startUrl cfg)"
    and "\<forall>file\<in>set (allFiles st). CHR ''('' \<notin> set (path file)"
  shows "\<forall>u\<in>set (urlsToCache cfg st). CHR ''('' \<notin> set u"
proof
  fix u
  assume "u \<in> set (urlsToCache cfg st)"
  then consider "u = startUrl cfg" | "u = startUrl cfg @ ''index.html''"
    | "u = startUrl cfg @ ''manifest.json''" | "u = startUrl cfg @ ''offline.html''"
    | fl where "fl \<in> set (allFiles st)" "u = startUrl cfg @ path fl"
    by (auto simp: urlsToCache_eq split: if_splits)
  then show "CHR ''('' \<notin> set u"
  proof cases
    case 5
    then show ?thesis using assms by simp
  qed (simp_all add: assms(1))
qed


end
